theory Spec2Isabelle
  imports Complex_Main "HOL-Library.Product_Lexorder" "HOL-Library.AList" "HOL-Library.Multiset"
begin

section \<open>Python values and exceptions\<close>

text \<open>
  Exceptions are values: every function of the model that can raise returns
  \<open>error + 'a\<close>, with \<open>Inl\<close> for the raised exception.  \<open>External\<close> stands for
  any exception raised inside a collaborator that is not part of this code (the decoder,
  the scorer, the file helpers).  \<open>ComplexValue\<close> is not a Python exception: it marks a
  computation that leaves the floats because a negative number is raised to a fractional
  power (Python then carries on with a complex number).  Python integers are \<open>int\<close>.
  The value of a Python float is a real number; where the code turns an integer into a
  float or computes with floats, the conversion and the operations are written out.
\<close>

datatype error =
    AssertionError
  | AttributeError
  | IndexError
  | OverflowError
  | TypeError
  | ValueError
  | ZeroDivisionError
  | ComplexValue
  | External string

section \<open>Learning-rate schedules (rtg/module/schedule.py)\<close>

subsection \<open>Integers as doubles\<close>

text \<open>
  An arithmetic operation between an \<open>int\<close> and a \<open>float\<close> first converts the integer
  to a double: exactly when it has at most 53 significant bits, otherwise rounded to 53
  bits, a tie going to the even neighbour; an integer that rounds to \<open>2^1024\<close> or more
  raises OverflowError.
\<close>

fun bit_length :: "nat \<Rightarrow> nat" where
  "bit_length n = (if n = 0 then 0 else Suc (bit_length (n div 2)))"

declare bit_length.simps [simp del]

definition to_float :: "int \<Rightarrow> error + real" where
  "to_float n =
     (let a = nat \<bar>n\<bar>; bits = bit_length a in
      if bits \<le> 53 then Inr (real_of_int n)
      else
        let shift = bits - 53;
            q = a div 2 ^ shift;
            r = a mod 2 ^ shift;
            half = 2 ^ (shift - 1);
            q' = (if r < half then q else if half < r then q + 1
                  else if even q then q else q + 1);
            m = q' * 2 ^ shift
        in if 2 ^ 1024 \<le> m then Inl OverflowError
           else Inr (if n < 0 then - real m else real m))"

text \<open>
  The operations on doubles that \<open>Noam.rate\<close> uses are the multiplication of the
  processor and the \<open>pow\<close> of the C library.  Both are functions from doubles to
  doubles; how they round is not fixed by the code, so they are parameters of the model.
  \<open>exact_arith\<close> is the instance that does not round at all.
\<close>

record float_ops =
  float_pow :: "real \<Rightarrow> real \<Rightarrow> real"
  float_mul :: "real \<Rightarrow> real \<Rightarrow> real"

definition exact_arith :: float_ops where
  "exact_arith = \<lparr>float_pow = (\<lambda>x y. x powr y), float_mul = (\<lambda>x y. x * y)\<rparr>"

subsection \<open>The schedules\<close>

text \<open>
  \<open>LRSchedule\<close> is an open class with the single method \<open>rate(step)\<close>; a schedule is
  therefore modelled by its rate function.
\<close>

type_synonym LRSchedule = "int \<Rightarrow> error + real"

record Noam =
  warmup :: int
  "constant" :: int
  model_dim :: int

text \<open>
  \<open>Noam.rate\<close>:
  \<^verbatim>\<open>constant * model_dim ** -0.5 * min(step ** -0.5, step * warmup ** -1.5)\<close>.
  Python evaluates from left to right: \<open>model_dim ** -0.5\<close>, the product with
  \<open>constant\<close>, \<open>step ** -0.5\<close>, \<open>warmup ** -1.5\<close> and its product with \<open>step\<close>, the
  minimum, the last product.  Each power and each product converts its integer operand;
  a zero base raises ZeroDivisionError, a negative base gives a complex number, which
  \<open>min\<close> refuses to compare (TypeError); a negative \<open>model_dim\<close> alone makes the
  result complex.
\<close>

definition rate :: "float_ops \<Rightarrow> Noam \<Rightarrow> int \<Rightarrow> error + real" where
  "rate ops n step =
     (case to_float (model_dim n) of
        Inl e \<Rightarrow> Inl e
      | Inr md \<Rightarrow>
          (if model_dim n = 0 then Inl ZeroDivisionError
           else
             (case to_float (constant n) of
                Inl e \<Rightarrow> Inl e
              | Inr c \<Rightarrow>
                  (case to_float step of
                     Inl e \<Rightarrow> Inl e
                   | Inr s \<Rightarrow>
                       (if step = 0 then Inl ZeroDivisionError
                        else
                          (case to_float (warmup n) of
                             Inl e \<Rightarrow> Inl e
                           | Inr w \<Rightarrow>
                               (if warmup n = 0 then Inl ZeroDivisionError
                                else if step < 0 \<or> warmup n < 0 then Inl TypeError
                                else if model_dim n < 0 then Inl ComplexValue
                                else Inr (float_mul ops
                                            (float_mul ops c (float_pow ops md (- 1 / 2)))
                                            (min (float_pow ops s (- 1 / 2))
                                                 (float_mul ops s
                                                    (float_pow ops w (- 3 / 2))))))))))))"

subsection \<open>The optimizer wrapper\<close>

text \<open>
  Of the wrapped torch optimizer the code touches the \<open>lr\<close> entry of every parameter
  group and calls \<open>optimizer.step\<close>.  The update itself is outside this code: the model
  counts the calls in \<open>updates\<close> and leaves the groups as they are.
\<close>

record param_group =
  lr :: real

record Optimizer =
  param_groups :: "param_group list"
  updates :: nat

definition optimizer_step :: "Optimizer \<Rightarrow> Optimizer" where
  "optimizer_step opt = opt\<lparr>updates := updates opt + 1\<rparr>"

text \<open>
  The private attributes \<open>_step\<close> and \<open>_rate\<close> are named after the properties that
  read them, \<open>curr_step\<close> and \<open>curr_lr\<close>.
\<close>

record ScheduledOptimizer =
  start_step :: int
  schedule :: "LRSchedule option"
  optimizer :: Optimizer
  curr_step :: int
  curr_lr :: real

definition post_init :: "int \<Rightarrow> LRSchedule option \<Rightarrow> Optimizer \<Rightarrow> ScheduledOptimizer" where
  "post_init start sch opt =
     \<lparr>start_step = start, schedule = sch, optimizer = opt, curr_step = start, curr_lr = - 1\<rparr>"

definition set_lr :: "real \<Rightarrow> Optimizer \<Rightarrow> Optimizer" where
  "set_lr r opt = opt\<lparr>param_groups := map (\<lambda>p. p\<lparr>lr := r\<rparr>) (param_groups opt)\<rparr>"

text \<open>
  \<open>ScheduledOptimizer.step\<close>; \<open>world_size\<close> is the process-wide \<open>dtorch.world_size\<close>.
  The counter is incremented first, so it stays incremented when the schedule raises.
\<close>

definition step :: "int \<Rightarrow> ScheduledOptimizer \<Rightarrow> (error + unit) \<times> ScheduledOptimizer" where
  "step world_size self =
     (let self1 = self\<lparr>curr_step := curr_step self + 1\<rparr> in
      case schedule self1 of
        Some sch \<Rightarrow>
          (case sch (curr_step self1) of
             Inl e \<Rightarrow> (Inl e, self1)
           | Inr r \<Rightarrow>
               let r' = (if world_size > 1 then r / real_of_int world_size else r);
                   self2 = self1\<lparr>optimizer := set_lr r' (optimizer self1), curr_lr := r'\<rparr>
               in (Inr (), self2\<lparr>optimizer := optimizer_step (optimizer self2)\<rparr>))
      | None \<Rightarrow>
          (let self2 = (case param_groups (optimizer self1) of
                          [] \<Rightarrow> self1
                        | p # _ \<Rightarrow> self1\<lparr>curr_lr := lr p\<rparr>)
           in (Inr (), self2\<lparr>optimizer := optimizer_step (optimizer self2)\<rparr>)))"

fun steps :: "int \<Rightarrow> nat \<Rightarrow> ScheduledOptimizer \<Rightarrow> ScheduledOptimizer" where
  "steps world_size 0 self = self"
| "steps world_size (Suc k) self = steps world_size k (snd (step world_size self))"

section \<open>Decoder tuning and test runs (rtg/pipeline.py)\<close>

subsection \<open>Values, dictionaries, collaborators\<close>

text \<open>
  A trial key is the tuple \<open>(beam_size, ensemble, lp_alpha)\<close>; tuples are compared
  lexicographically, as in Python.  The trial memory is a Python \<open>dict\<close>: an association
  list in insertion order, read with \<open>map_of\<close> and written with \<open>AList.update\<close>
  (an existing key keeps its place, a new key is appended).
\<close>

type_synonym key = "int \<times> int \<times> real"

type_synonym memo = "(key \<times> real) list"

datatype pyval = PyInt int | PyFloat real | PyTuple key

definition dict_get :: "(string \<times> 'v) list \<Rightarrow> string \<Rightarrow> 'v \<Rightarrow> 'v" where
  "dict_get d k dflt = (case map_of d k of None \<Rightarrow> dflt | Some v \<Rightarrow> v)"

text \<open>
  What the code calls and does not define: \<open>Decoder.new\<close>, the decoding and BLEU
  scoring behind \<open>decode_eval_file\<close>, and the built-ins \<open>str\<close> and \<open>eval\<close> on key
  tuples.  They are parameters of the model.
\<close>

record 'd env =
  Decoder_new :: "pyval \<Rightarrow> error + 'd"
  decode_and_score :: "'d \<Rightarrow> string \<Rightarrow> string \<Rightarrow> bool \<Rightarrow> pyval \<Rightarrow> pyval \<Rightarrow> pyval \<Rightarrow> error + real"
  str_key :: "key \<Rightarrow> string"
  eval_key :: "string \<Rightarrow> key"

text \<open>
  The generator behind \<open>random.randint\<close> and \<open>random.uniform\<close>: the \<open>i\<close>-th call of
  the underlying unit draw returns \<open>draws i\<close>.
\<close>

record rng =
  draws :: "nat \<Rightarrow> real"
  pos :: nat

datatype artifact = ScoreFile real | ErrFile error

text \<open>
  The part of the outside world the code reads and writes: the parsed content of
  \<open>scores.json\<close> in the tuning directory (\<open>None\<close> when the file does not exist), the
  paths that exist, the generator, the calls made to \<open>Decoder.new\<close> (\<open>built\<close>) and to
  the decoding and scoring (\<open>evaluated\<close>: index in \<open>built\<close> of the decoder used, the
  trial, the outcome), and the per-case files written by a test run.
\<close>

record world =
  scores_json :: "(string \<times> real) list option"
  paths :: "string set"
  random_state :: rng
  built :: "pyval list"
  evaluated :: "(nat \<times> key \<times> (error + real)) list"
  artifacts :: "(string \<times> artifact) list"

subsection \<open>Random sampling and rounding\<close>

definition random_unit :: "rng \<Rightarrow> real \<times> rng" where
  "random_unit g = (draws g (pos g), g\<lparr>pos := pos g + 1\<rparr>)"

text \<open>\<open>random.randint(a, b)\<close> raises ValueError on an empty range.\<close>

definition randint :: "int \<Rightarrow> int \<Rightarrow> rng \<Rightarrow> (error + int) \<times> rng" where
  "randint a b g =
     (if b < a then (Inl ValueError, g)
      else let (u, g') = random_unit g
           in (Inr (a + \<lfloor>u * real_of_int (b - a + 1)\<rfloor>), g'))"

definition uniform :: "real \<Rightarrow> real \<Rightarrow> rng \<Rightarrow> real \<times> rng" where
  "uniform a b g = (let (u, g') = random_unit g in (a + (b - a) * u, g'))"

text \<open>\<open>round(x, 2)\<close>: to the nearest hundredth, a tie going to the even neighbour.\<close>

definition round_half_even :: "real \<Rightarrow> int" where
  "round_half_even x =
     (let f = \<lfloor>x\<rfloor>; d = x - real_of_int f
      in if d < 1 / 2 then f else if 1 / 2 < d then f + 1 else if even f then f else f + 1)"

definition round2 :: "real \<Rightarrow> real" where
  "round2 x = real_of_int (round_half_even (x * 100)) / 100"

text \<open>The list comprehensions \<^verbatim>\<open>[random.randint(a, b) for _ in range(n)]\<close> and
  \<^verbatim>\<open>[round(random.uniform(a, b), 2) for _ in range(n)]\<close>.\<close>

fun randints :: "int \<Rightarrow> int \<Rightarrow> nat \<Rightarrow> rng \<Rightarrow> (error + int list) \<times> rng" where
  "randints a b 0 g = (Inr [], g)"
| "randints a b (Suc n) g =
     (case randint a b g of
        (Inl e, g1) \<Rightarrow> (Inl e, g1)
      | (Inr x, g1) \<Rightarrow>
          (case randints a b n g1 of
             (Inl e, g2) \<Rightarrow> (Inl e, g2)
           | (Inr xs, g2) \<Rightarrow> (Inr (x # xs), g2)))"

fun uniforms :: "real \<Rightarrow> real \<Rightarrow> nat \<Rightarrow> rng \<Rightarrow> real list \<times> rng" where
  "uniforms a b 0 g = ([], g)"
| "uniforms a b (Suc n) g =
     (let (x, g1) = uniform a b g; (xs, g2) = uniforms a b n g1 in (round2 x # xs, g2))"

subsection \<open>tune_decoder_params: loading, planning, grouping\<close>

record tune_args =
  tune_src :: string
  tune_ref :: string
  trials :: int
  strategy :: string
  lowercase :: bool
  beam_size :: "int \<times> int"
  ensemble :: "int \<times> int"
  lp_alpha :: "real \<times> real"
  suggested :: "key list option"

text \<open>
  Attribute lookup on a \<open>dict\<close>: the names a dictionary has.  \<^verbatim>\<open>data.item()\<close> looks
  up \<open>item\<close>.
\<close>

definition dict_attributes :: "string list" where
  "dict_attributes = [''clear'', ''copy'', ''fromkeys'', ''get'', ''items'', ''keys'', ''pop'',
                      ''popitem'', ''setdefault'', ''update'', ''values'']"

definition dict_getattr :: "string \<Rightarrow> error + string" where
  "dict_getattr name = (if name \<in> set dict_attributes then Inr name else Inl AttributeError)"

text \<open>
  Lines 103 to 107.  The file holds the JSON object written by an earlier run.
  \<^verbatim>\<open>memory = {eval(k) : v for k, v in data.item()}\<close>: the attribute is looked up first;
  were it found, the comprehension would insert the entries one by one.
\<close>

definition load_memory :: "'d env \<Rightarrow> (string \<times> real) list option \<Rightarrow> error + memo" where
  "load_memory env file =
     (case file of
        None \<Rightarrow> Inr []
      | Some data \<Rightarrow>
          (case dict_getattr ''item'' of
             Inl e \<Rightarrow> Inl e
           | Inr _ \<Rightarrow> Inr (foldl (\<lambda>m (k, v). AList.update (eval_key env k) v m) [] data)))"

text \<open>Lines 143 and 144: \<^verbatim>\<open>{str(k): v for k, v in memory.items()}\<close>, written as JSON.\<close>

definition dump :: "'d env \<Rightarrow> memo \<Rightarrow> (string \<times> real) list" where
  "dump env mem = foldl (\<lambda>d (k, v). AList.update (str_key env k) v d) [] mem"

text \<open>Lines 110 to 112: the suggestions, rounded, without those already in the memory.\<close>

definition suggested_new :: "memo \<Rightarrow> key list option \<Rightarrow> key list" where
  "suggested_new mem sugg =
     (case sugg of
        None \<Rightarrow> []
      | Some xs \<Rightarrow> filter (\<lambda>x. map_of mem x = None) (map (\<lambda>(b, e, a). (b, e, round2 a)) xs))"

definition new_trials :: "tune_args \<Rightarrow> memo \<Rightarrow> int" where
  "new_trials a mem = trials a - int (length mem)"

text \<open>Lines 118 to 121: the three lists of random draws, in the order they are drawn.\<close>

definition sampled :: "tune_args \<Rightarrow> int \<Rightarrow> rng \<Rightarrow> (error + int list \<times> int list \<times> real list) \<times> rng" where
  "sampled a n g =
     (if 0 < n then
        (case randints (fst (beam_size a)) (snd (beam_size a)) (nat n) g of
           (Inl e, g1) \<Rightarrow> (Inl e, g1)
         | (Inr bs, g1) \<Rightarrow>
             (case randints (fst (ensemble a)) (snd (ensemble a)) (nat n) g1 of
                (Inl e, g2) \<Rightarrow> (Inl e, g2)
              | (Inr es, g2) \<Rightarrow>
                  (let (ls, g3) = uniforms (fst (lp_alpha a)) (snd (lp_alpha a)) (nat n) g2
                   in (Inr (bs, es, ls), g3))))
      else (Inr ([], [], []), g))"

text \<open>Lines 109 to 121: \<open>beam_sizes\<close>, \<open>ensembles\<close>, \<open>lp_alphas\<close>.\<close>

definition trial_lists ::
    "tune_args \<Rightarrow> memo \<Rightarrow> rng \<Rightarrow> (error + int list \<times> int list \<times> real list) \<times> rng" where
  "trial_lists a mem g =
     (let sn = suggested_new mem (suggested a) in
      case sampled a (new_trials a mem) g of
        (Inl e, g') \<Rightarrow> (Inl e, g')
      | (Inr (bs, es, ls), g') \<Rightarrow>
          (Inr (map fst sn @ bs, map (fst \<circ> snd) sn @ es, map (snd \<circ> snd) sn @ ls), g'))"

text \<open>Lines 124 to 126: the \<open>defaultdict\<close> from an ensemble size to its \<open>(b, l)\<close> pairs.\<close>

definition group_add :: "(int \<times> (int \<times> real) list) list \<Rightarrow> key \<Rightarrow> (int \<times> (int \<times> real) list) list" where
  "group_add grp = (\<lambda>(b, ens, l).
     AList.update ens ((case map_of grp ens of None \<Rightarrow> [] | Some xs \<Rightarrow> xs) @ [(b, l)]) grp)"

definition grouped_ens :: "key list \<Rightarrow> (int \<times> (int \<times> real) list) list" where
  "grouped_ens ts = foldl group_add [] ts"

subsection \<open>tune_decoder_params: evaluation, selection, persistence\<close>

text \<open>\<open>suggest_batch_size\<close>: \<^verbatim>\<open>20000 // beam_size\<close>.\<close>

fun suggest_batch_size :: "pyval \<Rightarrow> error + pyval" where
  "suggest_batch_size (PyInt b) =
     (if b = 0 then Inl ZeroDivisionError else Inr (PyInt (20000 div b)))"
| "suggest_batch_size (PyFloat x) =
     (if x = 0 then Inl ZeroDivisionError else Inr (PyFloat (real_of_int \<lfloor>20000 / x\<rfloor>)))"
| "suggest_batch_size (PyTuple k) = Inl TypeError"

text \<open>
  \<open>decode_eval_file(self, decoder, src_file, out_file, ref_file, lowercase, **dec_args)\<close>:
  \<open>lowercase\<close> has no default, so a call that does not pass it raises TypeError before
  the body runs.  The body (decode unless the output file is complete, then detokenise
  and score) is the collaborator \<open>decode_and_score\<close>; the output file's name is fixed by
  the other arguments and is left out.
\<close>

definition decode_eval_file ::
    "'d env \<Rightarrow> 'd \<Rightarrow> string \<Rightarrow> string \<Rightarrow> bool option \<Rightarrow> pyval \<Rightarrow> pyval \<Rightarrow> pyval \<Rightarrow> error + real" where
  "decode_eval_file env decoder src_file ref_file lowercase_arg batch b lp =
     (case lowercase_arg of
        None \<Rightarrow> Inl TypeError
      | Some lc \<Rightarrow> decode_and_score env decoder src_file ref_file lc batch b lp)"

text \<open>
  Lines 130 to 138, the inner loop over the \<open>(b_s, lp_a)\<close> pairs of one ensemble size;
  \<open>i\<close> is the position in \<open>built\<close> of the decoder in use.  An exception leaves the
  loop with the memory as it is.
\<close>

fun eval_group ::
    "'d env \<Rightarrow> tune_args \<Rightarrow> 'd \<Rightarrow> nat \<Rightarrow> int \<Rightarrow> (int \<times> real) list \<Rightarrow> memo \<Rightarrow> world
       \<Rightarrow> error option \<times> memo \<times> world" where
  "eval_group env a decoder i ens [] mem w = (None, mem, w)"
| "eval_group env a decoder i ens ((b_s, lp_a) # rest) mem w =
     (case suggest_batch_size (PyInt b_s) of
        Inl e \<Rightarrow> (Some e, mem, w)
      | Inr batch \<Rightarrow>
          (let res = decode_eval_file env decoder (tune_src a) (tune_ref a) (Some (lowercase a))
                       batch (PyInt b_s) (PyFloat lp_a);
               w1 = w\<lparr>evaluated := evaluated w @ [(i, (b_s, ens, lp_a), res)]\<rparr>
           in case res of
                Inl e \<Rightarrow> (Some e, mem, w1)
              | Inr score \<Rightarrow>
                  eval_group env a decoder i ens rest (AList.update (b_s, ens, lp_a) score mem) w1))"

text \<open>Lines 128 to 138, the outer loop: one \<open>Decoder.new\<close> for each ensemble size.\<close>

fun eval_groups ::
    "'d env \<Rightarrow> tune_args \<Rightarrow> (int \<times> (int \<times> real) list) list \<Rightarrow> memo \<Rightarrow> world
       \<Rightarrow> error option \<times> memo \<times> world" where
  "eval_groups env a [] mem w = (None, mem, w)"
| "eval_groups env a ((ens, args) # groups) mem w =
     (let w1 = w\<lparr>built := built w @ [PyInt ens]\<rparr> in
      case Decoder_new env (PyInt ens) of
        Inl e \<Rightarrow> (Some e, mem, w1)
      | Inr decoder \<Rightarrow>
          (case eval_group env a decoder (length (built w)) ens args mem w1 of
             (Some e, mem2, w2) \<Rightarrow> (Some e, mem2, w2)
           | (None, mem2, w2) \<Rightarrow> eval_groups env a groups mem2 w2))"

text \<open>
  Line 139: \<^verbatim>\<open>sorted(memory.items(), key=lambda x:x[0], reverse=True)[0]\<close>.  A reversed
  sort is stable: it keeps equal elements in their order.  Indexing an empty list raises
  IndexError.
\<close>

definition sorted_reverse :: "('a \<Rightarrow> 'k::linorder) \<Rightarrow> 'a list \<Rightarrow> 'a list" where
  "sorted_reverse f xs = rev (sort_key f (rev xs))"

definition best_params :: "memo \<Rightarrow> error + key \<times> real" where
  "best_params mem =
     (case sorted_reverse fst mem of [] \<Rightarrow> Inl IndexError | kv # _ \<Rightarrow> Inr kv)"

text \<open>
  Line 140: \<^verbatim>\<open>dict(zip(['beam_size', 'ensemble', 'lp_alpha'], best_params))\<close>, where
  \<open>best_params\<close> is the pair of a key and its score.  (The second component of the
  returned pair, the echo of the call's arguments, is left out.)
\<close>

definition result_dict :: "key \<times> real \<Rightarrow> (string \<times> pyval) list" where
  "result_dict kv = zip [''beam_size'', ''ensemble'', ''lp_alpha''] [PyTuple (fst kv), PyFloat (snd kv)]"

text \<open>Lines 127 to 140: the body of the \<open>try\<close>.\<close>

definition try_body ::
    "'d env \<Rightarrow> tune_args \<Rightarrow> (int \<times> (int \<times> real) list) list \<Rightarrow> memo \<Rightarrow> world
       \<Rightarrow> (error + (string \<times> pyval) list) \<times> memo \<times> world" where
  "try_body env a groups mem w =
     (case eval_groups env a groups mem w of
        (Some e, mem', w') \<Rightarrow> (Inl e, mem', w')
      | (None, mem', w') \<Rightarrow>
          (case best_params mem' of
             Inl e \<Rightarrow> (Inl e, mem', w')
           | Inr kv \<Rightarrow> (Inr (result_dict kv), mem', w')))"

text \<open>
  \<open>tune_decoder_params\<close>.  The assertions, the loading and the planning come before the
  \<open>try\<close>; an exception there leaves the scores file as it is.  The \<open>finally\<close> clause
  writes the memory whatever the \<open>try\<close> did.
\<close>

definition tune_decoder_params ::
    "'d env \<Rightarrow> tune_args \<Rightarrow> world \<Rightarrow> (error + (string \<times> pyval) list) \<times> world" where
  "tune_decoder_params env a w =
     (if strategy a \<noteq> ''random'' then (Inl AssertionError, w)
      else if tune_src a \<notin> paths w then (Inl AssertionError, w)
      else if tune_ref a \<notin> paths w then (Inl AssertionError, w)
      else
        case load_memory env (scores_json w) of
          Inl e \<Rightarrow> (Inl e, w)
        | Inr mem \<Rightarrow>
            (case trial_lists a mem (random_state w) of
               (Inl e, g) \<Rightarrow> (Inl e, w\<lparr>random_state := g\<rparr>)
             | (Inr (beam_sizes, ensembles, lp_alphas), g) \<Rightarrow>
                 (let groups = grouped_ens (zip beam_sizes (zip ensembles lp_alphas));
                      (res, mem', w') = try_body env a groups mem (w\<lparr>random_state := g\<rparr>)
                  in (res, w'\<lparr>scores_json := Some (dump env mem')\<rparr>))))"

subsection \<open>run_tests\<close>

text \<open>
  The tester's arguments: the suite (name, source, reference), the \<open>decoder\<close> dictionary
  without its \<open>tune\<close> entry, and that entry when it is there, with its \<open>tuned\<close> flag;
  the tuning arguments hold the sources after the defaults of lines 168 to 172.
\<close>

record tester_args =
  suit :: "(string \<times> string \<times> string) list"
  decoder_args :: "(string \<times> pyval) list"
  tune :: "tune_args option"
  tuned :: bool

text \<open>
  Attribute lookup on the \<open>Pipeline\<close> object: its two fields and its eight methods.
  Of the methods, \<open>suggest_batch_size\<close> takes one argument; calling another one with a
  beam size does not fit its parameters.
\<close>

definition Pipeline_attributes :: "string list" where
  "Pipeline_attributes = [''exp'', ''script'', ''pre_checks'', ''detokenize'', ''evaluate_file'',
     ''decode_eval_file'', ''tune_decoder_params'', ''suggest_batch_size'', ''run_tests'', ''run'']"

definition Pipeline_getattr :: "string \<Rightarrow> error + (pyval \<Rightarrow> error + pyval)" where
  "Pipeline_getattr name =
     (if name = ''suggest_batch_size'' then Inr suggest_batch_size
      else if name \<in> set Pipeline_attributes then Inr (\<lambda>_. Inl TypeError)
      else Inl AttributeError)"

text \<open>
  Lines 196 to 212, the loop over the suite.  The call of \<open>decode_eval_file\<close> passes
  \<open>batch_size\<close>, \<open>beam_size\<close> and \<open>lp_alpha\<close> and no \<open>lowercase\<close>.  Every exception of
  the body is caught and written to the case's \<open>.err\<close> file; a score is written by the
  scoring.  (Linking the inputs into the test directory is left to the collaborator.)
\<close>

fun test_cases ::
    "'d env \<Rightarrow> 'd \<Rightarrow> pyval \<Rightarrow> pyval \<Rightarrow> pyval \<Rightarrow> (string \<times> string \<times> string) list \<Rightarrow> world \<Rightarrow> world" where
  "test_cases env decoder batch b lp [] w = w"
| "test_cases env decoder batch b lp ((name, orig_src, orig_ref) # rest) w =
     (case decode_eval_file env decoder orig_src orig_ref None batch b lp of
        Inl e \<Rightarrow>
          test_cases env decoder batch b lp rest (w\<lparr>artifacts := artifacts w @ [(name, ErrFile e)]\<rparr>)
      | Inr score \<Rightarrow>
          test_cases env decoder batch b lp rest (w\<lparr>artifacts := artifacts w @ [(name, ScoreFile score)]\<rparr>))"

text \<open>
  Lines 165 to 179: tuning, when the configuration asks for it and it has not been done;
  the result replaces \<open>best_params\<close>.
\<close>

definition tune_stage ::
    "'d env \<Rightarrow> tester_args \<Rightarrow> world \<Rightarrow> (error + (string \<times> pyval) list) \<times> world" where
  "tune_stage env args w =
     (case tune args of
        Some ta \<Rightarrow> (if tuned args then (Inr (decoder_args args), w) else tune_decoder_params env ta w)
      | None \<Rightarrow> (Inr (decoder_args args), w))"

text \<open>
  \<open>run_tests\<close>; \<open>last_step\<close> is the step of the last saved model.  Line 184,
  \<^verbatim>\<open>best_params.get('batch_size', self.suggested_batch_size(beam_size))\<close>, evaluates
  the default before the lookup.
\<close>

definition run_tests :: "'d env \<Rightarrow> tester_args \<Rightarrow> int \<Rightarrow> world \<Rightarrow> (error + unit) \<times> world" where
  "run_tests env args last_step w =
     (if suit args = [] then (Inl AssertionError, w)
      else
        case tune_stage env args w of
          (Inl e, w1) \<Rightarrow> (Inl e, w1)
        | (Inr best, w1) \<Rightarrow>
            (let b = dict_get best ''beam_size'' (PyInt 4);
                 ens = dict_get best ''ensemble'' (PyInt 5);
                 lp = dict_get best ''lp_alpha'' (PyFloat 0)
             in case Pipeline_getattr ''suggested_batch_size'' of
                  Inl e \<Rightarrow> (Inl e, w1)
                | Inr method \<Rightarrow>
                    (case method b of
                       Inl e \<Rightarrow> (Inl e, w1)
                     | Inr dflt \<Rightarrow>
                         (let batch = dict_get best ''batch_size'' dflt in
                          if last_step \<le> 0 then (Inl AssertionError, w1)
                          else
                            case Decoder_new env ens of
                              Inl e \<Rightarrow> (Inl e, w1\<lparr>built := built w1 @ [ens]\<rparr>)
                            | Inr decoder \<Rightarrow>
                                (Inr (), test_cases env decoder batch b lp (suit args)
                                           (w1\<lparr>built := built w1 @ [ens]\<rparr>))))))"

subsection \<open>Notions used to state the properties\<close>

text \<open>
  The trials of a record of evaluation calls that returned a score, with the score;
  writing a list of scored trials into a memory, in order; the trials of a grouping in
  the order in which the loops of lines 128 to 138 visit them.
\<close>

definition completed :: "(nat \<times> key \<times> (error + real)) list \<Rightarrow> (key \<times> real) list" where
  "completed calls = concat (map (\<lambda>(i, k, r). case r of Inl e \<Rightarrow> [] | Inr s \<Rightarrow> [(k, s)]) calls)"

definition record_all :: "memo \<Rightarrow> (key \<times> real) list \<Rightarrow> memo" where
  "record_all mem kvs = foldl (\<lambda>m (k, s). AList.update k s m) mem kvs"

definition flat :: "(int \<times> (int \<times> real) list) list \<Rightarrow> key list" where
  "flat groups = concat (map (\<lambda>(ens, args). map (\<lambda>(b, l). (b, ens, l)) args) groups)"

text \<open>
  For the rounding of the double operations: \<open>ulp\<close> bounds the relative error of one
  correctly rounded operation; \<open>close_to k y x\<close> says that \<open>y\<close> is \<open>x\<close> up to \<open>k\<close>
  such roundings; \<open>ulp_accurate\<close> is the accuracy of \<open>pow\<close> (for bases between 1 and
  \<open>2^53\<close> and exponents between -2 and 0) and of the multiplication (for positive
  factors whose product is between \<open>2^-200\<close> and \<open>2^200\<close>, far from overflow and
  underflow).  \<open>noam_min\<close> is the second factor of the formula in exact arithmetic and
  \<open>noam_scale\<close> its first factor as the code computes it.
\<close>

definition ulp :: real where
  "ulp = 1 / 2 ^ 52"

definition close_to :: "nat \<Rightarrow> real \<Rightarrow> real \<Rightarrow> bool" where
  "close_to k y x \<longleftrightarrow> (1 - ulp) ^ k * x \<le> y \<and> y \<le> (1 + ulp) ^ k * x"

definition ulp_accurate :: "float_ops \<Rightarrow> bool" where
  "ulp_accurate ops \<longleftrightarrow>
     (\<forall>x y. 1 \<le> x \<and> x \<le> 2 ^ 53 \<and> - 2 \<le> y \<and> y \<le> 0
        \<longrightarrow> \<bar>float_pow ops x y - x powr y\<bar> \<le> (x powr y) * ulp)
   \<and> (\<forall>x y. 0 < x \<and> 0 < y \<and> 1 / 2 ^ 200 \<le> x * y \<and> x * y \<le> 2 ^ 200
        \<longrightarrow> \<bar>float_mul ops x y - x * y\<bar> \<le> (x * y) * ulp)"

definition noam_min :: "real \<Rightarrow> real \<Rightarrow> real" where
  "noam_min w s = min (s powr (- 1 / 2)) (s * w powr (- 3 / 2))"

definition noam_scale :: "float_ops \<Rightarrow> Noam \<Rightarrow> real" where
  "noam_scale ops n =
     float_mul ops (real_of_int (constant n)) (float_pow ops (real_of_int (model_dim n)) (- 1 / 2))"

subsection \<open>Concrete inputs\<close>

text \<open>The schedule of \<open>get_vaswani_etal_opt\<close> with the default model width.\<close>

definition vaswani :: Noam where
  "vaswani = \<lparr>warmup = 4000, constant = 2, model_dim = 512\<rparr>"

text \<open>
  A tuning call with the default ranges, two trials asked for and one suggestion; a
  scorer that gives 30 to beam size 1 and 10 to any other; a generator whose draws are
  all 0, so that every sampled configuration is \<open>(1, 1, 0.0)\<close>; no scores file yet.
\<close>

definition example_env :: "pyval env" where
  "example_env = \<lparr>Decoder_new = (\<lambda>e. Inr e),
     decode_and_score = (\<lambda>d src ref lc batch b lp. if b = PyInt 1 then Inr 30 else Inr 10),
     str_key = (\<lambda>(b, e, l). if b = 1 then ''(1, 1, 0.0)'' else ''(2, 1, 0.0)''),
     eval_key = (\<lambda>s. if s = ''(1, 1, 0.0)'' then (1, 1, 0) else (2, 1, 0))\<rparr>"

definition example_args :: tune_args where
  "example_args = \<lparr>tune_src = ''dev.src'', tune_ref = ''dev.ref'', trials = 2, strategy = ''random'',
     lowercase = True, beam_size = (1, 15), ensemble = (1, 10), lp_alpha = (0, 1),
     suggested = Some [(2, 1, 0)]\<rparr>"

definition example_world :: world where
  "example_world = \<lparr>scores_json = None, paths = {''dev.src'', ''dev.ref''},
     random_state = \<lparr>draws = (\<lambda>_. 0), pos = 0\<rparr>, built = [], evaluated = [], artifacts = []\<rparr>"

text \<open>The same scorer, except that decoding with beam size 1 fails.\<close>

definition failing_env :: "pyval env" where
  "failing_env = example_env\<lparr>decode_and_score :=
     (\<lambda>d src ref lc batch b lp. if b = PyInt 1 then Inl (External ''decode'') else Inr 10)\<rparr>"

text \<open>
  A tuning directory in which an earlier run has left a scores file with one trial, and
  a tuning call with two suggestions that the file does not hold.
\<close>

definition resumed_world :: world where
  "resumed_world = example_world\<lparr>scores_json := Some [(''(2, 1, 0.0)'', 10)]\<rparr>"

definition resumed_args :: tune_args where
  "resumed_args = example_args\<lparr>suggested := Some [(3, 2, 0), (4, 2, 0)]\<rparr>"

text \<open>A two-case suite without a tuning section.\<close>

definition example_tester :: tester_args where
  "example_tester = \<lparr>suit = [(''A'', ''missing.src'', ''missing.ref''), (''B'', ''b.src'', ''b.ref'')],
     decoder_args = [], tune = None, tuned = False\<rparr>"

section \<open>Verified properties of the schedules\<close>

subsection \<open>The step counter\<close>

lemma step_counter: "curr_step (snd (step ws self)) = curr_step self + 1"
  by (auto simp: step_def Let_def split: option.splits sum.splits list.splits)

lemma steps_counter: "curr_step (steps ws k self) = curr_step self + int k"
  by (induction k arbitrary: self) (simp_all add: step_counter)

text \<open>
  Claim C9.  The counter starts at the configured start value, every call of \<open>step\<close>
  adds exactly 1 to it (with or without a schedule, and also when the schedule raises),
  and so \<open>k\<close> calls in a row add \<open>k\<close>.
\<close>

theorem step_increments_counter:
  "curr_step (post_init start sch opt) = start
   \<and> curr_step (snd (step ws self)) = curr_step self + 1
   \<and> curr_step (steps ws k self) = curr_step self + int k"
  by (simp add: post_init_def step_counter steps_counter)

subsection \<open>Integers as doubles\<close>

lemma bit_length_bound: "n < 2 ^ k \<Longrightarrow> bit_length n \<le> k"
proof (induction k arbitrary: n)
  case 0
  then show ?case by (simp add: bit_length.simps)
next
  case (Suc k)
  show ?case
  proof (cases "n = 0")
    case True
    then show ?thesis by (simp add: bit_length.simps)
  next
    case False
    have "n div 2 < 2 ^ k" using Suc.prems by simp
    then have "bit_length (n div 2) \<le> k" by (rule Suc.IH)
    then show ?thesis using False by (subst bit_length.simps) simp
  qed
qed

lemma bit_length_pow2: "bit_length (2 ^ k) = Suc k"
proof (induction k)
  case 0
  show ?case by (simp add: bit_length.simps)
next
  case (Suc k)
  have "bit_length (2 ^ Suc k) = Suc (bit_length (2 ^ Suc k div 2))"
    by (subst bit_length.simps) simp
  then show ?case using Suc by simp
qed

lemma bit_length_pow2_plus1: "0 < k \<Longrightarrow> bit_length (2 ^ k + 1) = Suc k"
proof -
  assume "0 < k"
  then obtain j where k: "k = Suc j" by (cases k) auto
  have "(2 ^ k + 1) div 2 = (2 ^ j :: nat)" using k by simp
  then have "bit_length (2 ^ k + 1) = Suc (bit_length (2 ^ j))"
    by (subst bit_length.simps) simp
  then show ?thesis using k by (simp add: bit_length_pow2)
qed

lemma to_float_exact: "\<bar>n\<bar> < 2 ^ 53 \<Longrightarrow> to_float n = Inr (real_of_int n)"
proof -
  assume "\<bar>n\<bar> < 2 ^ 53"
  then have "nat \<bar>n\<bar> < 2 ^ 53" by (simp add: nat_less_iff)
  then have "bit_length (nat \<bar>n\<bar>) \<le> 53" by (rule bit_length_bound)
  then show ?thesis by (simp add: to_float_def Let_def)
qed

lemma to_float_2_53: "to_float (2 ^ 53) = Inr (2 ^ 53)"
proof -
  have n: "nat \<bar>2 ^ 53 :: int\<bar> = 2 ^ 53" by simp
  have b: "bit_length (2 ^ 53) = 54" using bit_length_pow2[of 53] by simp
  show ?thesis
    unfolding to_float_def n Let_def b by simp
qed

lemma to_float_2_53_plus1: "to_float (2 ^ 53 + 1) = Inr (2 ^ 53)"
proof -
  have n: "nat \<bar>2 ^ 53 + 1 :: int\<bar> = 2 ^ 53 + 1" by simp
  have b: "bit_length (2 ^ 53 + 1) = 54" using bit_length_pow2_plus1[of 53] by simp
  show ?thesis
    unfolding to_float_def n Let_def b by simp
qed

lemma to_float_2_1024: "to_float (2 ^ 1024) = Inl OverflowError"
proof -
  have n: "nat \<bar>2 ^ 1024 :: int\<bar> = 2 ^ 1024" by simp
  have b: "bit_length (2 ^ 1024) = 1025" using bit_length_pow2[of 1024] by simp
  have q: "(2 ^ 1024 :: nat) div 2 ^ 972 = 2 ^ 52" by (simp add: power_diff)
  have r: "(2 ^ 1024 :: nat) mod 2 ^ 972 = 0" by (simp add: le_imp_power_dvd)
  have e: "even (2 ^ 52 :: nat)" by simp
  have m: "(2 ^ 52 :: nat) * 2 ^ 972 = 2 ^ 1024" by (simp add: power_add[symmetric])
  show ?thesis
    unfolding to_float_def n Let_def b
    by (simp add: q r m)
qed

subsection \<open>The rate under several workers\<close>

lemma pow_4_half: "(4::real) powr - (1 / 2) = 1 / 2"
proof -
  have "(4::real) powr - (1 / 2) = (2 powr 2) powr - (1 / 2)" by simp
  also have "\<dots> = 2 powr (- 1)" unfolding powr_powr by simp
  also have "\<dots> = 1 / 2" by (simp add: powr_minus_divide)
  finally show ?thesis .
qed

lemma pow_4_three_halves: "(4::real) powr - (3 / 2) = 1 / 8"
proof -
  have "(4::real) powr - (3 / 2) = (2 powr 2) powr - (3 / 2)" by simp
  also have "\<dots> = 2 powr (- 3)" unfolding powr_powr by simp
  also have "\<dots> = 1 / 8" by (simp add: powr_minus_divide)
  finally show ?thesis .
qed

lemma noam_example_1:
  "rate exact_arith \<lparr>warmup = 4, constant = 2, model_dim = 4\<rparr> 1 = Inr (1 / 8)"
  by (simp add: rate_def exact_arith_def to_float_exact pow_4_half pow_4_three_halves)

text \<open>
  Claim C4.  With a schedule attached that yields the rate \<open>r\<close> at the incremented
  counter, and more than one worker, \<open>step\<close> succeeds, the stored rate is \<open>r\<close> divided
  by the number of workers, and every parameter group of the optimizer carries exactly
  that rate.
\<close>

theorem step_divides_rate_by_world_size:
  assumes "schedule self = Some sch"
    and "sch (curr_step self + 1) = Inr r"
    and "1 < world_size"
  shows "fst (step world_size self) = Inr ()
     \<and> curr_lr (snd (step world_size self)) = r / real_of_int world_size
     \<and> map lr (param_groups (optimizer (snd (step world_size self))))
         = replicate (length (param_groups (optimizer self))) (r / real_of_int world_size)"
  using assms
  by (simp add: step_def Let_def set_lr_def optimizer_step_def map_replicate_const comp_def)

theorem step_divides_rate_by_world_size_witness:
  "schedule (post_init 0 (Some (rate exact_arith \<lparr>warmup = 4, constant = 2, model_dim = 4\<rparr>))
               \<lparr>param_groups = [\<lparr>lr = 0\<rparr>, \<lparr>lr = 0\<rparr>], updates = 0\<rparr>)
     = Some (rate exact_arith \<lparr>warmup = 4, constant = 2, model_dim = 4\<rparr>)
   \<and> rate exact_arith \<lparr>warmup = 4, constant = 2, model_dim = 4\<rparr> 1 = Inr (1 / 8)
   \<and> (1::int) < 4
   \<and> curr_lr (snd (step 4 (post_init 0 (Some (rate exact_arith \<lparr>warmup = 4, constant = 2, model_dim = 4\<rparr>))
               \<lparr>param_groups = [\<lparr>lr = 0\<rparr>, \<lparr>lr = 0\<rparr>], updates = 0\<rparr>))) = 1 / 32
   \<and> map lr (param_groups (optimizer (snd (step 4
          (post_init 0 (Some (rate exact_arith \<lparr>warmup = 4, constant = 2, model_dim = 4\<rparr>))
               \<lparr>param_groups = [\<lparr>lr = 0\<rparr>, \<lparr>lr = 0\<rparr>], updates = 0\<rparr>)))))
       = [1 / 32, 1 / 32]"
proof -
  let ?N = "\<lparr>warmup = 4, constant = 2, model_dim = 4\<rparr>"
  let ?c = "post_init 0 (Some (rate exact_arith ?N)) \<lparr>param_groups = [\<lparr>lr = 0\<rparr>, \<lparr>lr = 0\<rparr>], updates = 0\<rparr>"
  have h1: "schedule ?c = Some (rate exact_arith ?N)" by (simp add: post_init_def)
  have h2: "rate exact_arith ?N (curr_step ?c + 1) = Inr (1 / 8)"
    using noam_example_1 by (simp add: post_init_def)
  have h3: "(1::int) < 4" by simp
  have len: "length (param_groups (optimizer ?c)) = 2" by (simp add: post_init_def)
  show ?thesis
    using step_divides_rate_by_world_size [OF h1 h2 h3] h1 noam_example_1 len
    by (simp add: numeral_2_eq_2)
qed

subsection \<open>Values up to a few roundings\<close>

lemma ulp_pos: "0 < ulp" by (simp add: ulp_def)

lemma ulp_lt1: "ulp < 1" by (simp add: ulp_def)

lemma lo_cube: "1 / 2 \<le> (1 - ulp) ^ 3"
  by (simp add: ulp_def power3_eq_cube)

lemma hi_cube: "(1 + ulp) ^ 3 \<le> 2"
  by (simp add: ulp_def power3_eq_cube)

lemma gap_numeric: "(1 + ulp) ^ 3 < (1 - ulp) ^ 3 * (1 + 1 / 2 ^ 48)"
  by (simp add: ulp_def power3_eq_cube)

lemma close_to_refl: "close_to 0 x x"
  by (simp add: close_to_def)

lemma close_to_abs:
  assumes "\<bar>y - x\<bar> \<le> x * ulp"
  shows "close_to 1 y x"
  using assms by (simp add: close_to_def abs_le_iff algebra_simps)

lemma lower_factor: "0 < 1 - ulp" "1 - ulp \<le> 1"
  using ulp_pos ulp_lt1 by simp_all

lemma upper_factor: "1 \<le> 1 + ulp" "0 < 1 + ulp"
  using ulp_pos by simp_all

lemma factor_powers: "0 < (1 - ulp) ^ k" "0 < (1 + ulp) ^ k"
  using lower_factor(1) upper_factor(2) by simp_all

lemma close_to_weaken:
  assumes "close_to j y x" "j \<le> k" "0 \<le> x"
  shows "close_to k y x"
proof -
  have l: "(1 - ulp) ^ k \<le> (1 - ulp) ^ j"
    using assms(2) lower_factor by (intro power_decreasing) simp_all
  have u: "(1 + ulp) ^ j \<le> (1 + ulp) ^ k"
    using assms(2) upper_factor by (intro power_increasing) simp_all
  have "(1 - ulp) ^ k * x \<le> (1 - ulp) ^ j * x"
    using l assms(3) by (rule mult_right_mono)
  moreover have "(1 + ulp) ^ j * x \<le> (1 + ulp) ^ k * x"
    using u assms(3) by (rule mult_right_mono)
  ultimately show ?thesis using assms(1) by (simp add: close_to_def)
qed

lemma close_to_pos:
  assumes "close_to k y x" "0 < x"
  shows "0 < y"
proof -
  have "0 < (1 - ulp) ^ k * x" using assms(2) factor_powers(1)[of k] by simp
  then show ?thesis using assms(1) by (simp add: close_to_def)
qed

lemma close_to_mult:
  assumes "close_to j a' a" "close_to k b' b" "0 < a" "0 < b"
  shows "close_to (j + k) (a' * b') (a * b)"
proof -
  have pa: "0 < a'" and pb: "0 < b'" using assms close_to_pos by blast+
  have l: "0 \<le> (1 - ulp) ^ j * a" "0 \<le> (1 - ulp) ^ k * b"
    using assms(3,4) factor_powers(1)[of j] factor_powers(1)[of k] by simp_all
  have "((1 - ulp) ^ j * a) * ((1 - ulp) ^ k * b) \<le> a' * b'"
    using assms(1,2) l pa pb by (intro mult_mono) (simp_all add: close_to_def)
  moreover have "a' * b' \<le> ((1 + ulp) ^ j * a) * ((1 + ulp) ^ k * b)"
    using assms(1,2) pa pb by (intro mult_mono) (simp_all add: close_to_def)
  ultimately show ?thesis by (simp add: close_to_def power_add mult_ac)
qed

lemma close_to_trans:
  assumes "close_to j z y" "close_to k y x" "0 < x"
  shows "close_to (j + k) z x"
proof -
  have "(1 - ulp) ^ j * ((1 - ulp) ^ k * x) \<le> (1 - ulp) ^ j * y"
    using assms(2) factor_powers by (intro mult_left_mono) (simp_all add: close_to_def less_imp_le)
  moreover have "(1 + ulp) ^ j * y \<le> (1 + ulp) ^ j * ((1 + ulp) ^ k * x)"
    using assms(2) factor_powers by (intro mult_left_mono) (simp_all add: close_to_def less_imp_le)
  ultimately show ?thesis using assms(1) by (simp add: close_to_def power_add mult_ac)
qed

lemma close_to_min:
  assumes "close_to k a' a" "close_to k b' b"
  shows "close_to k (min a' b') (min a b)"
proof -
  have l: "0 \<le> (1 - ulp) ^ k" and u: "0 \<le> (1 + ulp) ^ k"
    using factor_powers[of k] by simp_all
  have "(1 - ulp) ^ k * min a b \<le> (1 - ulp) ^ k * a"
       "(1 - ulp) ^ k * min a b \<le> (1 - ulp) ^ k * b"
    using l by (simp_all add: mult_left_mono)
  then have lo: "(1 - ulp) ^ k * min a b \<le> min a' b'"
    using assms by (simp add: close_to_def)
  have hi: "min a' b' \<le> (1 + ulp) ^ k * min a b"
  proof (cases "a \<le> b")
    case True
    then have "min a' b' \<le> (1 + ulp) ^ k * a" using assms(1) by (simp add: close_to_def min_def)
    then show ?thesis using True by (simp add: min_def)
  next
    case False
    then have "min a' b' \<le> (1 + ulp) ^ k * b" using assms(2) by (simp add: close_to_def min_def)
    then show ?thesis using False by (simp add: min_def)
  qed
  show ?thesis using lo hi by (simp add: close_to_def)
qed

lemma close_to_half_double:
  assumes "close_to k y x" "k \<le> 3" "0 < x"
  shows "x / 2 \<le> y \<and> y \<le> 2 * x"
proof -
  have x0: "0 \<le> x" using assms(3) by simp
  have w: "close_to 3 y x" by (rule close_to_weaken[OF assms(1) assms(2) x0])
  have a: "(1 / 2) * x \<le> (1 - ulp) ^ 3 * x" by (rule mult_right_mono[OF lo_cube x0])
  have b: "(1 + ulp) ^ 3 * x \<le> 2 * x" by (rule mult_right_mono[OF hi_cube x0])
  have c: "(1 - ulp) ^ 3 * x \<le> y" "y \<le> (1 + ulp) ^ 3 * x"
    using w unfolding close_to_def by blast+
  have "(1 / 2) * x \<le> y" by (rule order_trans[OF a c(1)])
  moreover have "y \<le> 2 * x" by (rule order_trans[OF c(2) b])
  ultimately show ?thesis by simp
qed

lemma close_to_strict:
  assumes "close_to 3 rs (A * fs)" "close_to 3 rt (A * ft)" "0 < A" "0 < fs"
    and "(1 + 1 / 2 ^ 48) * fs \<le> ft"
  shows "rs < rt"
proof -
  define L where "L = (1 - ulp) ^ 3"
  define H where "H = (1 + ulp) ^ 3"
  define g where "g = (1 + 1 / 2 ^ 48 :: real)"
  have LH: "H < L * g" "0 < L" unfolding L_def H_def g_def
    using gap_numeric factor_powers(1)[of 3] by simp_all
  have p: "0 < A * fs" using assms(3,4) by simp
  have 1: "rs \<le> H * (A * fs)" using assms(1) unfolding close_to_def H_def by simp
  have 2: "H * (A * fs) < (L * g) * (A * fs)"
    using LH(1) p by (rule mult_strict_right_mono)
  have 3: "(L * g) * (A * fs) = L * (A * (g * fs))" by (simp only: mult.assoc mult.left_commute)
  have gf: "g * fs \<le> ft" using assms(5) unfolding g_def .
  have A0: "0 \<le> A" and L0: "0 \<le> L" using assms(3) LH(2) by simp_all
  have "A * (g * fs) \<le> A * ft" by (rule mult_left_mono[OF gf A0])
  then have 4: "L * (A * (g * fs)) \<le> L * (A * ft)" by (rule mult_left_mono[OF _ L0])
  have 5: "L * (A * ft) \<le> rt" using assms(2) unfolding close_to_def L_def by simp
  show ?thesis using 1 2 3 4 5 by linarith
qed

subsection \<open>The formula in exact arithmetic\<close>

lemma rise_le:
  fixes s w :: real
  assumes "1 \<le> s" "s \<le> w"
  shows "s * w powr (- 3 / 2) \<le> s powr (- 1 / 2)"
proof -
  have "s powr (3 / 2) \<le> w powr (3 / 2)" using assms by (intro powr_mono2) auto
  then have "s * w powr (- 3 / 2) \<le> s * s powr (- 3 / 2)"
    using assms by (simp add: powr_minus_divide field_simps)
  also have "s * s powr (- 3 / 2) = s powr 1 * s powr (- 3 / 2)" using assms by simp
  also have "\<dots> = s powr (- 1 / 2)" unfolding powr_add[symmetric] by simp
  finally show ?thesis .
qed

lemma decay_le:
  fixes s w :: real
  assumes "1 \<le> w" "w \<le> s"
  shows "s powr (- 1 / 2) \<le> s * w powr (- 3 / 2)"
proof -
  have "w powr (3 / 2) \<le> s powr (3 / 2)" using assms by (intro powr_mono2) auto
  then have "s * s powr (- 3 / 2) \<le> s * w powr (- 3 / 2)"
    using assms by (simp add: powr_minus_divide field_simps)
  moreover have "s powr (- 1 / 2) = s powr 1 * s powr (- 3 / 2)"
    unfolding powr_add[symmetric] by simp
  moreover have "s powr 1 = s" using assms by simp
  ultimately show ?thesis by metis
qed

lemma noam_min_rise: "1 \<le> s \<Longrightarrow> s \<le> w \<Longrightarrow> noam_min w s = s * w powr (- 3 / 2)"
  using rise_le[of s w] by (simp add: noam_min_def min_def)

lemma noam_min_decay: "1 \<le> w \<Longrightarrow> w \<le> s \<Longrightarrow> noam_min w s = s powr (- 1 / 2)"
  using decay_le[of w s] by (simp add: noam_min_def min_def)

lemma gap_rise:
  fixes s t w :: real
  assumes "1 \<le> s" "s + 1 \<le> t" "t \<le> w" "s \<le> 2 ^ 46"
  shows "(1 + 1 / 2 ^ 48) * noam_min w s \<le> noam_min w t"
proof -
  have W: "0 \<le> w powr (- 3 / 2)" by simp
  have "s / 2 ^ 48 \<le> 1" using assms(4) by simp
  then have "(1 + 1 / 2 ^ 48) * s \<le> t" using assms(2) by (simp add: algebra_simps)
  then have "((1 + 1 / 2 ^ 48) * s) * w powr (- 3 / 2) \<le> t * w powr (- 3 / 2)"
    using W by (rule mult_right_mono)
  moreover have "noam_min w s = s * w powr (- 3 / 2)" using assms by (intro noam_min_rise) simp_all
  moreover have "noam_min w t = t * w powr (- 3 / 2)" using assms by (intro noam_min_rise) simp_all
  ultimately show ?thesis by (simp add: mult.assoc)
qed

lemma powr_minus_half: "0 < x \<Longrightarrow> x powr (- 1 / 2) = 1 / sqrt x"
  by (simp add: powr_minus_divide powr_half_sqrt)

lemma gap_decay:
  fixes s t w :: real
  assumes "1 \<le> w" "w \<le> s" "s + 1 \<le> t" "s \<le> 2 ^ 46"
  shows "(1 + 1 / 2 ^ 48) * noam_min w t \<le> noam_min w s"
proof -
  define g where "g = (1 + 1 / 2 ^ 48 :: real)"
  have g0: "0 < g" "g\<^sup>2 \<le> 1 + 1 / 2 ^ 46" unfolding g_def by (simp_all add: power2_eq_square)
  have s0: "0 < s" and t0: "0 < t" using assms by simp_all
  have "s / 2 ^ 46 \<le> 1" using assms(4) by simp
  then have "(1 + 1 / 2 ^ 46) * s \<le> t" using assms(3) by (simp add: algebra_simps)
  moreover have "g\<^sup>2 * s \<le> (1 + 1 / 2 ^ 46) * s"
    using g0(2) s0 by (intro mult_right_mono) simp_all
  ultimately have "g\<^sup>2 * s \<le> t" by linarith
  then have "sqrt (g\<^sup>2 * s) \<le> sqrt t" by simp
  then have r: "g * sqrt s \<le> sqrt t" using g0(1) by (simp add: real_sqrt_mult)
  have "g / sqrt t \<le> 1 / sqrt s"
    using r s0 t0 by (simp add: field_simps)
  moreover have "noam_min w s = 1 / sqrt s"
    using noam_min_decay[OF assms(1) assms(2)] powr_minus_half[OF s0] by (rule trans)
  moreover have "w \<le> t" using assms(2,3) by simp
  then have "noam_min w t = 1 / sqrt t"
    using noam_min_decay[OF assms(1)] powr_minus_half[OF t0] by (metis)
  ultimately show ?thesis unfolding g_def by simp
qed

lemma pow_range:
  fixes x y :: real
  assumes "1 \<le> x" "x \<le> 2 ^ 46" "- 3 / 2 \<le> y" "y \<le> 0"
  shows "1 / 2 ^ 69 \<le> x powr y \<and> x powr y \<le> 1"
proof -
  have "x powr y \<le> 1 powr y" using assms by (intro powr_mono2') simp_all
  then have u: "x powr y \<le> 1" by simp
  have "(2 ^ 46) powr (- 3 / 2) = ((2::real) powr 46) powr (- 3 / 2)" by simp
  also have "\<dots> = 2 powr (- 69)" unfolding powr_powr by simp
  also have "\<dots> = 1 / 2 ^ 69" by (simp add: powr_minus_divide)
  finally have e: "(2 ^ 46 :: real) powr (- 3 / 2) = 1 / 2 ^ 69" .
  have "(2 ^ 46) powr (- 3 / 2) \<le> x powr (- 3 / 2)" using assms by (intro powr_mono2') simp_all
  also have "x powr (- 3 / 2) \<le> x powr y" using assms by (intro powr_mono) simp_all
  finally have "1 / 2 ^ 69 \<le> x powr y" using e by simp
  with u show ?thesis by simp
qed

subsection \<open>The computed rate and the formula\<close>

lemma pow_acc:
  assumes "ulp_accurate ops" "1 \<le> x" "x \<le> 2 ^ 46" "- 3 / 2 \<le> y" "y \<le> 0"
  shows "close_to 1 (float_pow ops x y) (x powr y)"
proof -
  have "x \<le> 2 ^ 53" using assms(3) by simp
  moreover have "- 2 \<le> y" using assms(4) by simp
  ultimately have "\<bar>float_pow ops x y - x powr y\<bar> \<le> (x powr y) * ulp"
    using assms(1,2,5) unfolding ulp_accurate_def by blast
  then show ?thesis by (rule close_to_abs)
qed

lemma mul_acc:
  assumes "ulp_accurate ops" "0 < x" "0 < y" "1 / 2 ^ 200 \<le> x * y" "x * y \<le> 2 ^ 200"
  shows "close_to 1 (float_mul ops x y) (x * y)"
proof -
  have "\<bar>float_mul ops x y - x * y\<bar> \<le> (x * y) * ulp"
    using assms unfolding ulp_accurate_def by blast
  then show ?thesis by (rule close_to_abs)
qed

text \<open>Two positive factors between \<open>2^-75\<close> and \<open>2^50\<close> have a product in the accurate range.\<close>

lemma product_range:
  fixes x y :: real
  assumes "1 / 2 ^ 75 \<le> x" "x \<le> 2 ^ 50" "1 / 2 ^ 75 \<le> y" "y \<le> 2 ^ 50"
  shows "0 < x \<and> 0 < y \<and> 1 / 2 ^ 200 \<le> x * y \<and> x * y \<le> 2 ^ 200"
proof -
  have p: "(0::real) < 1 / 2 ^ 75" by simp
  have x0: "0 < x" and y0: "0 < y" using assms(1,3) p by linarith+
  have "(1 / 2 ^ 75) * (1 / 2 ^ 75) \<le> x * y"
    using assms(1,3) p by (intro mult_mono) simp_all
  moreover have "(1 / 2 ^ 200 :: real) \<le> (1 / 2 ^ 75) * (1 / 2 ^ 75)" by simp
  ultimately have lo: "1 / 2 ^ 200 \<le> x * y" by (rule order_trans[rotated])
  have "x * y \<le> 2 ^ 50 * 2 ^ 50"
    using assms(2,4) x0 y0 by (intro mult_mono) simp_all
  moreover have "(2 ^ 50 * 2 ^ 50 :: real) \<le> 2 ^ 200" by simp
  ultimately have hi: "x * y \<le> 2 ^ 200" by (rule order_trans)
  show ?thesis using x0 y0 lo hi by simp
qed

text \<open>An approximation, to at most three roundings, of a value between \<open>2^-72\<close> and
  \<open>2^48\<close> lies between \<open>2^-75\<close> and \<open>2^50\<close>.\<close>

lemma approx_range:
  fixes x y :: real
  assumes "close_to k y x" "k \<le> 3" "1 / 2 ^ 72 \<le> x" "x \<le> 2 ^ 48"
  shows "1 / 2 ^ 75 \<le> y \<and> y \<le> 2 ^ 50"
proof -
  have p: "(0::real) < 1 / 2 ^ 72" by simp
  have x0: "0 < x" using assms(3) p by linarith
  from close_to_half_double[OF assms(1) assms(2) x0]
  have h: "x / 2 \<le> y" "y \<le> 2 * x" by simp_all
  have "(1 / 2 ^ 75 :: real) \<le> (1 / 2 ^ 72) / 2" by simp
  also have "\<dots> \<le> x / 2" using assms(3) by simp
  finally have lo: "1 / 2 ^ 75 \<le> y" using h(1) by linarith
  have "2 * x \<le> 2 * 2 ^ 48" using assms(4) by simp
  also have "\<dots> \<le> (2 ^ 50 :: real)" by simp
  finally have "y \<le> 2 ^ 50" using h(2) by linarith
  with lo show ?thesis by simp
qed

lemma int_range:
  fixes i :: int
  assumes "0 < i" "i \<le> 2 ^ 46"
  shows "1 \<le> real_of_int i" "real_of_int i \<le> 2 ^ 46" "\<bar>i\<bar> < 2 ^ 53"
        "1 / 2 ^ 75 \<le> real_of_int i" "real_of_int i \<le> 2 ^ 50"
proof -
  show a: "1 \<le> real_of_int i" using assms(1) by simp
  have "real_of_int i \<le> real_of_int (2 ^ 46)" using assms(2) by (rule of_int_le_iff[THEN iffD2])
  then show b: "real_of_int i \<le> 2 ^ 46" by simp
  show "\<bar>i\<bar> < 2 ^ 53" using assms by simp
  have "(1 / 2 ^ 75 :: real) \<le> 1" by simp
  then show "1 / 2 ^ 75 \<le> real_of_int i" using a by linarith
  have "(2 ^ 46 :: real) \<le> 2 ^ 50" by simp
  then show "real_of_int i \<le> 2 ^ 50" using b by linarith
qed

lemma rate_value:
  assumes "0 < model_dim n" "model_dim n \<le> 2 ^ 46" "0 < constant n" "constant n \<le> 2 ^ 46"
    and "0 < warmup n" "warmup n \<le> 2 ^ 46" "0 < s" "s \<le> 2 ^ 46"
  shows "rate ops n s =
     Inr (float_mul ops (noam_scale ops n)
            (min (float_pow ops (real_of_int s) (- 1 / 2))
                 (float_mul ops (real_of_int s)
                    (float_pow ops (real_of_int (warmup n)) (- 3 / 2)))))"
proof -
  have e: "to_float (model_dim n) = Inr (real_of_int (model_dim n))"
          "to_float (constant n) = Inr (real_of_int (constant n))"
          "to_float (warmup n) = Inr (real_of_int (warmup n))"
          "to_float s = Inr (real_of_int s)"
    using assms by (simp_all add: to_float_exact int_range(3))
  show ?thesis
    using assms(1,3,5,7) by (simp add: rate_def e noam_scale_def)
qed

lemma rate_enclosure:
  assumes acc: "ulp_accurate ops"
    and md: "0 < model_dim n" "model_dim n \<le> 2 ^ 46"
    and c: "0 < constant n" "constant n \<le> 2 ^ 46"
    and w: "0 < warmup n" "warmup n \<le> 2 ^ 46"
    and s: "0 < s" "s \<le> 2 ^ 46"
  shows "0 < noam_scale ops n
     \<and> (\<exists>r. rate ops n s = Inr r
            \<and> close_to 3 r (noam_scale ops n * noam_min (real_of_int (warmup n)) (real_of_int s)))"
proof -
  define C where "C = real_of_int (constant n)"
  define M where "M = real_of_int (model_dim n)"
  define W where "W = real_of_int (warmup n)"
  define S where "S = real_of_int s"
  define P1 where "P1 = float_pow ops M (- 1 / 2)"
  define A where "A = float_mul ops C P1"
  define Ps where "Ps = float_pow ops S (- 1 / 2)"
  define Pw where "Pw = float_pow ops W (- 3 / 2)"
  define Ms where "Ms = float_mul ops S Pw"
  define F where "F = min Ps Ms"
  define R where "R = float_mul ops A F"
  have A_eq: "noam_scale ops n = A" by (simp add: noam_scale_def A_def P1_def C_def M_def)
  have R_eq: "rate ops n s = Inr R"
    using rate_value[OF md c w s, of ops]
    by (simp add: R_def F_def Ps_def Ms_def Pw_def S_def W_def A_eq)
  note Mr = int_range[OF md, folded M_def]
  note Cr = int_range[OF c, folded C_def]
  note Wr = int_range[OF w, folded W_def]
  note Sr = int_range[OF s, folded S_def]
  have small: "(1 / 2 ^ 72 :: real) \<le> 1 / 2 ^ 69" "(1::real) \<le> 2 ^ 48" by simp_all
  \<comment> \<open>the three powers\<close>
  have h: "- 3 / 2 \<le> (- 1 / 2 :: real)" "(- 1 / 2 :: real) \<le> 0"
          "- 3 / 2 \<le> (- 3 / 2 :: real)" "(- 3 / 2 :: real) \<le> 0" by simp_all
  have p1: "close_to 1 P1 (M powr (- 1 / 2))"
    unfolding P1_def by (rule pow_acc[OF acc Mr(1) Mr(2) h(1) h(2)])
  have ps: "close_to 1 Ps (S powr (- 1 / 2))"
    unfolding Ps_def by (rule pow_acc[OF acc Sr(1) Sr(2) h(1) h(2)])
  have pw: "close_to 1 Pw (W powr (- 3 / 2))"
    unfolding Pw_def by (rule pow_acc[OF acc Wr(1) Wr(2) h(3) h(4)])
  note p1x = pow_range[OF Mr(1) Mr(2) h(1) h(2)]
  note psx = pow_range[OF Sr(1) Sr(2) h(1) h(2)]
  note pwx = pow_range[OF Wr(1) Wr(2) h(3) h(4)]
  have p1x': "1 / 2 ^ 72 \<le> M powr (- 1 / 2)" "M powr (- 1 / 2) \<le> 2 ^ 48"
    using p1x small by (blast intro: order_trans)+
  have pwx': "1 / 2 ^ 72 \<le> W powr (- 3 / 2)" "W powr (- 3 / 2) \<le> 2 ^ 48"
    using pwx small by (blast intro: order_trans)+
  have P1r: "1 / 2 ^ 75 \<le> P1 \<and> P1 \<le> 2 ^ 50"
    by (rule approx_range[OF p1 _ p1x']) simp
  have Pwr: "1 / 2 ^ 75 \<le> Pw \<and> Pw \<le> 2 ^ 50"
    by (rule approx_range[OF pw _ pwx']) simp
  \<comment> \<open>the scale\<close>
  have CP: "0 < C \<and> 0 < P1 \<and> 1 / 2 ^ 200 \<le> C * P1 \<and> C * P1 \<le> 2 ^ 200"
    using product_range[OF Cr(4) Cr(5)] P1r by blast
  have a: "close_to 1 A (C * P1)"
    unfolding A_def using mul_acc[OF acc] CP by blast
  have A0: "0 < A" using close_to_pos[OF a] CP by simp
  \<comment> \<open>bounds on the scale\<close>
  have Mp0: "0 < M powr (- 1 / 2)" using p1x' by (intro less_le_trans[OF _ p1x'(1)]) simp
  have k13: "(1::nat) \<le> 3" by simp
  have p1h: "M powr (- 1 / 2) / 2 \<le> P1" "P1 \<le> 2 * M powr (- 1 / 2)"
    using close_to_half_double[OF p1 k13 Mp0] by blast+
  have p1lo: "1 / 2 ^ 69 \<le> M powr (- 1 / 2)" and p1hi: "M powr (- 1 / 2) \<le> 1"
    using p1x by blast+
  have "1 / 2 ^ 70 \<le> M powr (- 1 / 2) / 2" using p1lo by simp
  then have P1lo: "1 / 2 ^ 70 \<le> P1" by (rule order_trans[OF _ p1h(1)])
  have "2 * M powr (- 1 / 2) \<le> 2" using p1hi by simp
  then have P1hi: "P1 \<le> 2" by (rule order_trans[OF p1h(2)])
  have "1 * (1 / 2 ^ 70) \<le> C * P1"
    using Cr(1) P1lo by (intro mult_mono) simp_all
  then have CPlo: "1 / 2 ^ 72 \<le> C * P1" by simp
  have "C * P1 \<le> 2 ^ 46 * 2"
    using Cr(2) P1hi CP by (intro mult_mono) simp_all
  then have CPhi: "C * P1 \<le> 2 ^ 48" by simp
  have Ar: "1 / 2 ^ 75 \<le> A \<and> A \<le> 2 ^ 50"
    by (rule approx_range[OF a _ CPlo CPhi]) simp
  \<comment> \<open>the linear branch\<close>
  have SP: "0 < S \<and> 0 < Pw \<and> 1 / 2 ^ 200 \<le> S * Pw \<and> S * Pw \<le> 2 ^ 200"
    using product_range[OF Sr(4) Sr(5)] Pwr by blast
  have m1: "close_to 1 Ms (S * Pw)"
    unfolding Ms_def using mul_acc[OF acc] SP by blast
  have W0: "0 < W powr (- 3 / 2)" by (intro less_le_trans[OF _ pwx'(1)]) simp
  have S0: "0 < S" using SP by simp
  have "close_to (0 + 1) (S * Pw) (S * W powr (- 3 / 2))"
    by (rule close_to_mult[OF close_to_refl pw S0 W0])
  then have m2: "close_to 1 (S * Pw) (S * W powr (- 3 / 2))" by simp
  have SW0: "0 < S * W powr (- 3 / 2)" using S0 W0 by simp
  have "close_to (1 + 1) Ms (S * W powr (- 3 / 2))"
    by (rule close_to_trans[OF m1 m2 SW0])
  then have ms: "close_to 2 Ms (S * W powr (- 3 / 2))" by (simp add: numeral_2_eq_2)
  have PS0: "0 \<le> S powr (- 1 / 2)" by simp
  have ps2: "close_to 2 Ps (S powr (- 1 / 2))"
    by (rule close_to_weaken[OF ps _ PS0]) simp
  have f: "close_to 2 F (noam_min W S)"
    unfolding F_def noam_min_def by (rule close_to_min[OF ps2 ms])
  \<comment> \<open>bounds on the formula\<close>
  have "1 * (1 / 2 ^ 69) \<le> S * W powr (- 3 / 2)"
    using Sr(1) pwx by (intro mult_mono) simp_all
  then have SWlo: "1 / 2 ^ 69 \<le> S * W powr (- 3 / 2)" by simp
  have flo: "1 / 2 ^ 72 \<le> noam_min W S"
    unfolding noam_min_def using psx SWlo small by (simp add: min_def)
  have fhi: "noam_min W S \<le> 2 ^ 48"
    unfolding noam_min_def using psx small by (simp add: min_def)
  have f0: "0 < noam_min W S" using flo by (rule less_le_trans[rotated]) simp
  have Fr: "1 / 2 ^ 75 \<le> F \<and> F \<le> 2 ^ 50"
    by (rule approx_range[OF f _ flo fhi]) simp
  \<comment> \<open>the product\<close>
  have AF: "0 < A \<and> 0 < F \<and> 1 / 2 ^ 200 \<le> A * F \<and> A * F \<le> 2 ^ 200"
    using product_range Ar Fr by blast
  have r1: "close_to 1 R (A * F)"
    unfolding R_def using mul_acc[OF acc] AF by blast
  have "close_to (0 + 2) (A * F) (A * noam_min W S)"
    by (rule close_to_mult[OF close_to_refl f A0 f0])
  then have r2: "close_to 2 (A * F) (A * noam_min W S)" by (simp add: numeral_2_eq_2)
  have Af0: "0 < A * noam_min W S" using A0 f0 by simp
  have "close_to (1 + 2) R (A * noam_min W S)"
    by (rule close_to_trans[OF r1 r2 Af0])
  then have r3: "close_to 3 R (A * noam_min W S)" by (simp add: numeral_3_eq_3)
  show ?thesis
    using A0 R_eq r3 unfolding A_eq W_def S_def by blast
qed

subsection \<open>Shape of the Noam schedule\<close>

lemma rate_same_double:
  "to_float s = to_float t \<Longrightarrow> 0 < s \<Longrightarrow> 0 < t \<Longrightarrow> rate ops n s = rate ops n t"
  by (auto simp: rate_def split: sum.splits)

lemma rate_overflow:
  assumes "to_float s = Inl OverflowError" "0 < model_dim n" "model_dim n \<le> 2 ^ 46"
    "0 < constant n" "constant n \<le> 2 ^ 46"
  shows "rate ops n s = Inl OverflowError"
  using assms by (simp add: rate_def to_float_exact int_range(3))

lemma rate_less_rise:
  assumes acc: "ulp_accurate ops"
    and md: "0 < model_dim n" "model_dim n \<le> 2 ^ 46"
    and c: "0 < constant n" "constant n \<le> 2 ^ 46"
    and w: "0 < warmup n" "warmup n \<le> 2 ^ 46"
    and st: "1 \<le> s" "s < t" "t \<le> warmup n"
  shows "\<exists>r r'. rate ops n s = Inr r \<and> rate ops n t = Inr r' \<and> r < r'"
proof -
  have s: "0 < s" "s \<le> 2 ^ 46" and t: "0 < t" "t \<le> 2 ^ 46" using st w by simp_all
  from rate_enclosure[OF acc md c w s] obtain r where
    A0: "0 < noam_scale ops n" and r: "rate ops n s = Inr r"
      "close_to 3 r (noam_scale ops n * noam_min (real_of_int (warmup n)) (real_of_int s))"
    by blast
  from rate_enclosure[OF acc md c w t] obtain r' where r': "rate ops n t = Inr r'"
      "close_to 3 r' (noam_scale ops n * noam_min (real_of_int (warmup n)) (real_of_int t))"
    by blast
  have S: "1 \<le> real_of_int s" "real_of_int s + 1 \<le> real_of_int t"
          "real_of_int t \<le> real_of_int (warmup n)" "real_of_int s \<le> 2 ^ 46"
    using st int_range(2)[OF s] by simp_all
  have g: "(1 + 1 / 2 ^ 48) * noam_min (real_of_int (warmup n)) (real_of_int s)
             \<le> noam_min (real_of_int (warmup n)) (real_of_int t)"
    by (rule gap_rise[OF S])
  have "real_of_int s \<le> real_of_int (warmup n)" using S by linarith
  then have "noam_min (real_of_int (warmup n)) (real_of_int s)
               = real_of_int s * real_of_int (warmup n) powr (- 3 / 2)"
    using S(1) by (intro noam_min_rise)
  moreover have "0 < real_of_int s * real_of_int (warmup n) powr (- 3 / 2)"
    using s(1) w(1) by simp
  ultimately have f0: "0 < noam_min (real_of_int (warmup n)) (real_of_int s)" by simp
  have "r < r'" by (rule close_to_strict[OF r(2) r'(2) A0 f0 g])
  with r(1) r'(1) show ?thesis by blast
qed

lemma rate_less_decay:
  assumes acc: "ulp_accurate ops"
    and md: "0 < model_dim n" "model_dim n \<le> 2 ^ 46"
    and c: "0 < constant n" "constant n \<le> 2 ^ 46"
    and w: "0 < warmup n" "warmup n \<le> 2 ^ 46"
    and st: "warmup n \<le> s" "s < t" "t \<le> 2 ^ 46"
  shows "\<exists>r r'. rate ops n s = Inr r \<and> rate ops n t = Inr r' \<and> r' < r"
proof -
  have s: "0 < s" "s \<le> 2 ^ 46" and t: "0 < t" "t \<le> 2 ^ 46" using st w by simp_all
  from rate_enclosure[OF acc md c w s] obtain r where
    A0: "0 < noam_scale ops n" and r: "rate ops n s = Inr r"
      "close_to 3 r (noam_scale ops n * noam_min (real_of_int (warmup n)) (real_of_int s))"
    by blast
  from rate_enclosure[OF acc md c w t] obtain r' where r': "rate ops n t = Inr r'"
      "close_to 3 r' (noam_scale ops n * noam_min (real_of_int (warmup n)) (real_of_int t))"
    by blast
  have S: "1 \<le> real_of_int (warmup n)" "real_of_int (warmup n) \<le> real_of_int s"
          "real_of_int s + 1 \<le> real_of_int t" "real_of_int s \<le> 2 ^ 46"
    using st w int_range(2)[OF s] by simp_all
  have g: "(1 + 1 / 2 ^ 48) * noam_min (real_of_int (warmup n)) (real_of_int t)
             \<le> noam_min (real_of_int (warmup n)) (real_of_int s)"
    by (rule gap_decay[OF S])
  have "real_of_int (warmup n) \<le> real_of_int t" using S by linarith
  then have "noam_min (real_of_int (warmup n)) (real_of_int t) = real_of_int t powr (- 1 / 2)"
    using S(1) by (intro noam_min_decay)
  moreover have "0 < real_of_int t powr (- 1 / 2)" using t(1) by simp
  ultimately have f0: "0 < noam_min (real_of_int (warmup n)) (real_of_int t)" by simp
  have "r' < r" by (rule close_to_strict[OF r'(2) r(2) A0 f0 g])
  with r(1) r'(1) show ?thesis by blast
qed

lemma exact_arith_accurate: "ulp_accurate exact_arith"
  using ulp_pos by (simp add: ulp_accurate_def exact_arith_def)

text \<open>
  Claim C5, as stated, fails for large steps.  The steps \<open>2^53\<close> and \<open>2^53 + 1\<close>
  are above the warm-up of the standard schedule and convert to the same double, so
  their rates are equal and not strictly decreasing (\<open>rate_same_double\<close>: whatever the
  operations on doubles are; shown here for the operations without rounding); the step
  \<open>2^1024\<close> has no rate, its conversion raises OverflowError.
\<close>

theorem noam_not_strict_counterexample:
  "warmup vaswani \<le> 2 ^ 53 \<and> (2 ^ 53 :: int) < 2 ^ 53 + 1
   \<and> rate exact_arith vaswani (2 ^ 53) = Inr (2 * 512 powr (- 1 / 2) * (2 ^ 53) powr (- 1 / 2))
   \<and> rate exact_arith vaswani (2 ^ 53 + 1) = rate exact_arith vaswani (2 ^ 53)
   \<and> rate exact_arith vaswani (2 ^ 1024) = Inl OverflowError"
proof -
  have h: "0 < model_dim vaswani" "model_dim vaswani \<le> 2 ^ 46"
          "0 < constant vaswani" "constant vaswani \<le> 2 ^ 46"
    by (simp_all add: vaswani_def)
  have e: "to_float (2 ^ 53 + 1) = to_float (2 ^ 53)"
    by (simp only: to_float_2_53 to_float_2_53_plus1)
  have 1: "warmup vaswani \<le> 2 ^ 53" by (simp add: vaswani_def)
  have 2: "(2 ^ 53 :: int) < 2 ^ 53 + 1" by simp
  have m: "min ((2 ^ 53 :: real) powr (- 1 / 2)) (2 ^ 53 * 4000 powr (- 3 / 2))
             = (2 ^ 53) powr (- 1 / 2)"
    using decay_le[of 4000 "2 ^ 53"] by (simp add: min_def)
  have t: "to_float 512 = Inr 512" "to_float 2 = Inr 2" "to_float 4000 = Inr 4000"
    by (simp_all add: to_float_exact)
  have t53: "to_float 9007199254740992 = Inr 9007199254740992"
    using to_float_2_53 by simp
  have 3: "rate exact_arith vaswani (2 ^ 53) = Inr (2 * 512 powr (- 1 / 2) * (2 ^ 53) powr (- 1 / 2))"
    using m by (simp add: rate_def vaswani_def t t53 exact_arith_def)
  have 4: "rate exact_arith vaswani (2 ^ 53 + 1) = rate exact_arith vaswani (2 ^ 53)"
    by (rule rate_same_double[OF e]) simp_all
  have 5: "rate exact_arith vaswani (2 ^ 1024) = Inl OverflowError"
    by (rule rate_overflow[OF to_float_2_1024 h])
  show ?thesis by (intro conjI 1 2 3 4 5)
qed

text \<open>
  Claim C5, amended.  Let the parameters of a Noam schedule be positive and at most
  \<open>2^46\<close>, and let the multiplication and \<open>pow\<close> on doubles be accurate to a relative
  error of \<open>2^-52\<close>.  Then the computed rate is a float at every step from 1 to
  \<open>2^46\<close>; it is strictly increasing on the steps up to \<open>warmup\<close>, strictly
  decreasing on the steps from \<open>warmup\<close> to \<open>2^46\<close>, and every step up to \<open>2^46\<close>
  other than \<open>warmup\<close> has a strictly smaller rate than \<open>warmup\<close> has.
\<close>

theorem noam_shape_in_doubles:
  assumes "ulp_accurate ops"
    and "0 < model_dim n" and "model_dim n \<le> 2 ^ 46"
    and "0 < constant n" and "constant n \<le> 2 ^ 46"
    and "0 < warmup n" and "warmup n \<le> 2 ^ 46"
  shows "(\<forall>s t. 1 \<le> s \<and> s < t \<and> t \<le> warmup n \<longrightarrow>
            (\<exists>r r'. rate ops n s = Inr r \<and> rate ops n t = Inr r' \<and> r < r'))
     \<and> (\<forall>s t. warmup n \<le> s \<and> s < t \<and> t \<le> 2 ^ 46 \<longrightarrow>
            (\<exists>r r'. rate ops n s = Inr r \<and> rate ops n t = Inr r' \<and> r' < r))
     \<and> (\<forall>s. 1 \<le> s \<and> s \<le> 2 ^ 46 \<and> s \<noteq> warmup n \<longrightarrow>
            (\<exists>r p. rate ops n s = Inr r \<and> rate ops n (warmup n) = Inr p \<and> r < p))"
proof (intro conjI allI impI)
  fix s t assume "1 \<le> s \<and> s < t \<and> t \<le> warmup n"
  then show "\<exists>r r'. rate ops n s = Inr r \<and> rate ops n t = Inr r' \<and> r < r'"
    using rate_less_rise[OF assms] by blast
next
  fix s t assume "warmup n \<le> s \<and> s < t \<and> t \<le> 2 ^ 46"
  then show "\<exists>r r'. rate ops n s = Inr r \<and> rate ops n t = Inr r' \<and> r' < r"
    using rate_less_decay[OF assms] by blast
next
  fix s assume h: "1 \<le> s \<and> s \<le> 2 ^ 46 \<and> s \<noteq> warmup n"
  show "\<exists>r p. rate ops n s = Inr r \<and> rate ops n (warmup n) = Inr p \<and> r < p"
  proof (cases "s < warmup n")
    case True
    then show ?thesis
      using h rate_less_rise[OF assms, of s "warmup n"] by simp
  next
    case False
    then have "warmup n < s" using h by simp
    then show ?thesis
      using h rate_less_decay[OF assms, of "warmup n" s] by blast
  qed
qed

theorem noam_shape_in_doubles_witness:
  "ulp_accurate exact_arith
   \<and> 0 < model_dim vaswani \<and> model_dim vaswani \<le> 2 ^ 46
   \<and> 0 < constant vaswani \<and> constant vaswani \<le> 2 ^ 46
   \<and> 0 < warmup vaswani \<and> warmup vaswani \<le> 2 ^ 46
   \<and> (\<exists>r r'. rate exact_arith vaswani 1 = Inr r \<and> rate exact_arith vaswani 2 = Inr r' \<and> r < r')
   \<and> (\<exists>r r'. rate exact_arith vaswani 4000 = Inr r \<and> rate exact_arith vaswani 4001 = Inr r'
               \<and> r' < r)
   \<and> (\<exists>r p. rate exact_arith vaswani 5000 = Inr r \<and> rate exact_arith vaswani (warmup vaswani) = Inr p
               \<and> r < p)"
proof -
  have h: "0 < model_dim vaswani" "model_dim vaswani \<le> 2 ^ 46"
          "0 < constant vaswani" "constant vaswani \<le> 2 ^ 46"
          "0 < warmup vaswani" "warmup vaswani \<le> 2 ^ 46"
    by (simp_all add: vaswani_def)
  note T = noam_shape_in_doubles [OF exact_arith_accurate h]
  from T have "1 \<le> (1::int) \<and> (1::int) < 2 \<and> 2 \<le> warmup vaswani \<longrightarrow>
      (\<exists>r r'. rate exact_arith vaswani 1 = Inr r \<and> rate exact_arith vaswani 2 = Inr r' \<and> r < r')"
    by blast
  then have a: "\<exists>r r'. rate exact_arith vaswani 1 = Inr r \<and> rate exact_arith vaswani 2 = Inr r' \<and> r < r'"
    by (simp add: vaswani_def del: ex_simps)
  from T have "warmup vaswani \<le> 4000 \<and> (4000::int) < 4001 \<and> (4001::int) \<le> 2 ^ 46 \<longrightarrow>
      (\<exists>r r'. rate exact_arith vaswani 4000 = Inr r \<and> rate exact_arith vaswani 4001 = Inr r' \<and> r' < r)"
    by blast
  then have b: "\<exists>r r'. rate exact_arith vaswani 4000 = Inr r \<and> rate exact_arith vaswani 4001 = Inr r' \<and> r' < r"
    by (simp add: vaswani_def del: ex_simps)
  from T have "1 \<le> (5000::int) \<and> (5000::int) \<le> 2 ^ 46 \<and> 5000 \<noteq> warmup vaswani \<longrightarrow>
      (\<exists>r p. rate exact_arith vaswani 5000 = Inr r \<and> rate exact_arith vaswani (warmup vaswani) = Inr p \<and> r < p)"
    by blast
  then have c: "\<exists>r p. rate exact_arith vaswani 5000 = Inr r \<and> rate exact_arith vaswani (warmup vaswani) = Inr p \<and> r < p"
    by (simp add: vaswani_def del: ex_simps)
  show ?thesis
    by (intro conjI exact_arith_accurate h a b c)
qed

section \<open>Verified properties of the tuning and test runs\<close>

subsection \<open>What the evaluation loops record\<close>

lemma completed_simps [simp]:
  "completed [] = []"
  "completed (calls @ calls') = completed calls @ completed calls'"
  "completed [(i, k, Inr s)] = [(k, s)]"
  "completed [(i, k, Inl e)] = []"
  by (simp_all add: completed_def)

lemma completed_Cons [simp]:
  "completed ((i, k, Inr s) # calls) = (k, s) # completed calls"
  "completed ((i, k, Inl e) # calls) = completed calls"
  by (simp_all add: completed_def)

lemma record_all_simps [simp]:
  "record_all mem [] = mem"
  "record_all mem ((k, s) # kvs) = record_all (AList.update k s mem) kvs"
  "record_all mem (kvs @ kvs') = record_all (record_all mem kvs) kvs'"
  by (simp_all add: record_all_def)

lemma eval_group_log:
  "eval_group env a d i ens args mem w = (r, mem', w') \<Longrightarrow>
     \<exists>calls. w' = w\<lparr>evaluated := evaluated w @ calls\<rparr>
        \<and> mem' = record_all mem (completed calls)
        \<and> (\<forall>x \<in> set calls. fst x = i \<and> fst (snd (fst (snd x))) = ens)
        \<and> (r = None \<longrightarrow> map (\<lambda>x. fst (snd x)) calls = map (\<lambda>(b, l). (b, ens, l)) args
                          \<and> (\<forall>x \<in> set calls. \<exists>s. snd (snd x) = Inr s))"
proof (induction args arbitrary: mem w)
  case Nil
  then show ?case by (intro exI[of _ "[]"]) auto
next
  case (Cons p rest)
  obtain b_s lp_a where p: "p = (b_s, lp_a)" by (cases p)
  show ?case
  proof (cases "suggest_batch_size (PyInt b_s)")
    case (Inl e)
    with Cons.prems p show ?thesis by (intro exI[of _ "[]"]) auto
  next
    case (Inr batch)
    let ?res = "decode_eval_file env d (tune_src a) (tune_ref a) (Some (lowercase a)) batch (PyInt b_s) (PyFloat lp_a)"
    let ?w1 = "w\<lparr>evaluated := evaluated w @ [(i, (b_s, ens, lp_a), ?res)]\<rparr>"
    show ?thesis
    proof (cases ?res)
      case (Inl e)
      with Cons.prems p Inr show ?thesis
        by (intro exI[of _ "[(i, (b_s, ens, lp_a), Inl e)]"]) (auto simp: Let_def)
    next
      case res: (Inr score)
      with Cons.prems p Inr
      have "eval_group env a d i ens rest (AList.update (b_s, ens, lp_a) score mem) ?w1 = (r, mem', w')"
        by (simp add: Let_def)
      from Cons.IH[OF this] obtain calls where
        L: "w' = ?w1\<lparr>evaluated := evaluated ?w1 @ calls\<rparr>"
           "mem' = record_all (AList.update (b_s, ens, lp_a) score mem) (completed calls)"
           "\<forall>x \<in> set calls. fst x = i \<and> fst (snd (fst (snd x))) = ens"
           "r = None \<longrightarrow> map (\<lambda>x. fst (snd x)) calls = map (\<lambda>(b, l). (b, ens, l)) rest
                          \<and> (\<forall>x \<in> set calls. \<exists>s. snd (snd x) = Inr s)"
        by blast
      show ?thesis
        using L res p
        by (intro exI[of _ "(i, (b_s, ens, lp_a), Inr score) # calls"]) auto
    qed
  qed
qed

lemma eval_groups_log:
  "eval_groups env a groups mem w = (r, mem', w') \<Longrightarrow>
     \<exists>calls bl. w' = w\<lparr>built := built w @ map PyInt bl, evaluated := evaluated w @ calls\<rparr>
        \<and> mem' = record_all mem (completed calls)
        \<and> bl = take (length bl) (map fst groups)
        \<and> (\<forall>x \<in> set calls. \<exists>j < length bl. fst x = length (built w) + j \<and> fst (snd (fst (snd x))) = bl ! j)
        \<and> (r = None \<longrightarrow> bl = map fst groups \<and> map (\<lambda>x. fst (snd x)) calls = flat groups
                          \<and> (\<forall>x \<in> set calls. \<exists>s. snd (snd x) = Inr s))"
proof (induction groups arbitrary: mem w)
  case Nil
  then show ?case by (intro exI[of _ "[]"]) (auto simp: flat_def)
next
  case (Cons g groups)
  obtain ens args where g: "g = (ens, args)" by (cases g)
  let ?w1 = "w\<lparr>built := built w @ [PyInt ens]\<rparr>"
  show ?case
  proof (cases "Decoder_new env (PyInt ens)")
    case (Inl e)
    with Cons.prems g show ?thesis
      by (intro exI[of _ "[]"] exI[of _ "[ens]"]) (auto simp: Let_def)
  next
    case (Inr d)
    obtain r1 mem1 w1 where eg: "eval_group env a d (length (built w)) ens args mem ?w1 = (r1, mem1, w1)"
      by (metis prod_cases3)
    from eval_group_log[OF eg] obtain calls1 where
      G: "w1 = ?w1\<lparr>evaluated := evaluated ?w1 @ calls1\<rparr>"
         "mem1 = record_all mem (completed calls1)"
         "\<forall>x \<in> set calls1. fst x = length (built w) \<and> fst (snd (fst (snd x))) = ens"
         "r1 = None \<longrightarrow> map (\<lambda>x. fst (snd x)) calls1 = map (\<lambda>(b, l). (b, ens, l)) args
                          \<and> (\<forall>x \<in> set calls1. \<exists>s. snd (snd x) = Inr s)"
      by blast
    show ?thesis
    proof (cases r1)
      case (Some e)
      with Cons.prems g Inr eg have "r = Some e" "mem' = mem1" "w' = w1" by (simp_all add: Let_def)
      with G g show ?thesis
        by (intro exI[of _ calls1] exI[of _ "[ens]"]) auto
    next
      case None
      with Cons.prems g Inr eg have "eval_groups env a groups mem1 w1 = (r, mem', w')"
        by (simp add: Let_def)
      from Cons.IH[OF this] obtain calls2 bl2 where
        H: "w' = w1\<lparr>built := built w1 @ map PyInt bl2, evaluated := evaluated w1 @ calls2\<rparr>"
           "mem' = record_all mem1 (completed calls2)"
           "bl2 = take (length bl2) (map fst groups)"
           "\<forall>x \<in> set calls2. \<exists>j < length bl2. fst x = length (built w1) + j \<and> fst (snd (fst (snd x))) = bl2 ! j"
           "r = None \<longrightarrow> bl2 = map fst groups \<and> map (\<lambda>x. fst (snd x)) calls2 = flat groups
                          \<and> (\<forall>x \<in> set calls2. \<exists>s. snd (snd x) = Inr s)"
        by blast
      have bw1: "built w1 = built w @ [PyInt ens]" using G(1) by simp
      have c1: "w' = w\<lparr>built := built w @ map PyInt (ens # bl2), evaluated := evaluated w @ (calls1 @ calls2)\<rparr>"
        using H(1) G(1) by simp
      have c2: "mem' = record_all mem (completed (calls1 @ calls2))" using H(2) G(2) by simp
      have c3: "ens # bl2 = take (length (ens # bl2)) (map fst (g # groups))"
        using H(3) g by simp
      have c4: "\<forall>x \<in> set (calls1 @ calls2). \<exists>j < length (ens # bl2). fst x = length (built w) + j
                  \<and> fst (snd (fst (snd x))) = (ens # bl2) ! j"
      proof
        fix x assume "x \<in> set (calls1 @ calls2)"
        then consider "x \<in> set calls1" | "x \<in> set calls2" by auto
        then show "\<exists>j < length (ens # bl2). fst x = length (built w) + j
                  \<and> fst (snd (fst (snd x))) = (ens # bl2) ! j"
        proof cases
          case 1
          then show ?thesis using G(3) by (intro exI[of _ 0]) auto
        next
          case 2
          then obtain j where "j < length bl2" "fst x = length (built w1) + j" "fst (snd (fst (snd x))) = bl2 ! j"
            using H(4) by blast
          then show ?thesis using bw1 by (intro exI[of _ "Suc j"]) auto
        qed
      qed
      have c5: "r = None \<longrightarrow> ens # bl2 = map fst (g # groups) \<and> map (\<lambda>x. fst (snd x)) (calls1 @ calls2) = flat (g # groups)
                          \<and> (\<forall>x \<in> set (calls1 @ calls2). \<exists>s. snd (snd x) = Inr s)"
        using H(5) G(4) None g by (auto simp: flat_def)
      show ?thesis
        by (intro exI[of _ "calls1 @ calls2"] exI[of _ "ens # bl2"] conjI c1 c2 c3 c4 c5)
    qed
  qed
qed

subsection \<open>Grouping by ensemble size\<close>

lemma flat_simps [simp]:
  "flat [] = []"
  "flat ((ens, args) # groups) = map (\<lambda>(b, l). (b, ens, l)) args @ flat groups"
  by (simp_all add: flat_def)

lemma group_add_keys:
  "fst ` set (group_add grp (b, e, l)) = insert e (fst ` set grp)"
  by (simp add: group_add_def dom_update)

lemma group_add_distinct:
  "distinct (map fst grp) \<Longrightarrow> distinct (map fst (group_add grp (b, e, l)))"
  by (simp add: group_add_def distinct_update)

lemma group_add_flat:
  "mset (flat (group_add grp (b, e, l))) = add_mset (b, e, l) (mset (flat grp))"
proof (induction grp)
  case Nil
  then show ?case by (simp add: group_add_def)
next
  case (Cons p grp)
  obtain e' args where p: "p = (e', args)" by (cases p)
  show ?case
  proof (cases "e' = e")
    case True
    then show ?thesis using p by (simp add: group_add_def)
  next
    case False
    then show ?thesis using p Cons.IH by (simp add: group_add_def)
  qed
qed

lemma foldl_group_add:
  "distinct (map fst grp) \<Longrightarrow>
     distinct (map fst (foldl group_add grp ts))
     \<and> fst ` set (foldl group_add grp ts) = fst ` set grp \<union> (\<lambda>k. fst (snd k)) ` set ts
     \<and> mset (flat (foldl group_add grp ts)) = mset (flat grp) + mset ts"
proof (induction ts arbitrary: grp)
  case Nil
  then show ?case by simp
next
  case (Cons t ts)
  obtain b e l where t: "t = (b, e, l)" by (cases t)
  have d: "distinct (map fst (group_add grp t))" using Cons.prems t group_add_distinct by simp
  show ?case
    using Cons.IH[OF d] t by (simp add: group_add_keys group_add_flat)
qed

lemma grouped_ens_props:
  "distinct (map fst (grouped_ens ts))"
  "fst ` set (grouped_ens ts) = (\<lambda>k. fst (snd k)) ` set ts"
  "mset (flat (grouped_ens ts)) = mset ts"
  using foldl_group_add[of "[]" ts] by (simp_all add: grouped_ens_def)

subsection \<open>Selection\<close>

lemma best_params_largest_key:
  assumes "best_params mem = Inr kv"
  shows "kv \<in> set mem \<and> (\<forall>kv' \<in> set mem. fst kv' \<le> fst kv)"
proof -
  from assms obtain rest where "sorted_reverse fst mem = kv # rest"
    by (auto simp: best_params_def split: list.splits)
  then have "rev (sort_key fst (rev mem)) = kv # rest" by (simp add: sorted_reverse_def)
  then have s: "sort_key fst (rev mem) = rev rest @ [kv]" by (metis rev.simps(2) rev_rev_ident)
  have "set (sort_key fst (rev mem)) = set mem" by simp
  with s have in_mem: "kv \<in> set mem" and sub: "set mem = set (rev rest @ [kv])" by auto
  have "sorted (map fst (sort_key fst (rev mem)))" by (rule sorted_sort_key)
  with s have "sorted (map fst (rev rest) @ [fst kv])" by simp
  then have "\<forall>x \<in> set (map fst (rev rest)). x \<le> fst kv" by (simp add: sorted_append)
  then have "\<forall>kv' \<in> set (rev rest @ [kv]). fst kv' \<le> fst kv" by auto
  with sub in_mem show ?thesis by simp
qed

lemma best_params_empty: "best_params [] = Inl IndexError"
  by (simp add: best_params_def sorted_reverse_def)

subsection \<open>Loading, attribute lookup, the test loop\<close>

lemma load_memory_absent: "load_memory env None = Inr []"
  by (simp add: load_memory_def)

lemma load_memory_present: "load_memory env (Some data) = Inl AttributeError"
  by (simp add: load_memory_def dict_getattr_def dict_attributes_def)

lemma tune_with_scores_file:
  "\<exists>e. tune_decoder_params env a (w\<lparr>scores_json := Some data\<rparr>) = (Inl e, w\<lparr>scores_json := Some data\<rparr>)"
  by (simp add: tune_decoder_params_def load_memory_present)

lemma getattr_suggested: "Pipeline_getattr ''suggested_batch_size'' = Inl AttributeError"
  by (simp add: Pipeline_getattr_def Pipeline_attributes_def)

lemma test_cases_all_errors:
  "test_cases env d batch b lp cases w
     = w\<lparr>artifacts := artifacts w @ map (\<lambda>(name, src, ref). (name, ErrFile TypeError)) cases\<rparr>"
  by (induction cases arbitrary: w) (auto simp: decode_eval_file_def)

subsection \<open>The concrete runs\<close>

lemma round2_zero: "round2 0 = 0"
  by (simp add: round2_def round_half_even_def)

lemma example_trial_lists:
  "trial_lists example_args [] (random_state example_world)
     = (Inr ([2, 1, 1], [1, 1, 1], [0, 0, 0]), \<lparr>draws = (\<lambda>_. 0), pos = 6\<rparr>)"
  by (simp add: trial_lists_def example_args_def example_world_def suggested_new_def
      new_trials_def sampled_def randint_def random_unit_def uniform_def round2_zero numeral_2_eq_2)

lemma example_grouped:
  "grouped_ens [(2, 1, 0), (1, 1, 0), (1, 1, 0)] = [(1, [(2, 0), (1, 0), (1, 0)])]"
  by (simp add: grouped_ens_def group_add_def)

lemma example_best: "best_params [((2, 1, 0), 10), ((1, 1, 0), 30)] = Inr ((2, 1, 0), 10)"
  by (simp add: best_params_def sorted_reverse_def)

lemma example_eval_groups:
  "eval_groups example_env example_args [(1, [(2, 0), (1, 0), (1, 0)])] []
      (example_world\<lparr>random_state := \<lparr>draws = (\<lambda>_. 0), pos = 6\<rparr>\<rparr>)
   = (None, [((2, 1, 0), 10), ((1, 1, 0), 30)],
      example_world\<lparr>random_state := \<lparr>draws = (\<lambda>_. 0), pos = 6\<rparr>, built := [PyInt 1],
        evaluated := [(0, (2, 1, 0), Inr 10), (0, (1, 1, 0), Inr 30), (0, (1, 1, 0), Inr 30)]\<rparr>)"
  by (simp add: example_env_def example_args_def example_world_def decode_eval_file_def Let_def)

lemma example_pre:
  "strategy example_args = ''random''"
  "tune_src example_args \<in> paths example_world"
  "tune_ref example_args \<in> paths example_world"
  "load_memory env (scores_json example_world) = Inr []"
  by (simp_all add: example_args_def example_world_def load_memory_def)

lemma example_dump:
  "dump example_env [((2, 1, 0), 10), ((1, 1, 0), 30)] = [(''(2, 1, 0.0)'', 10), (''(1, 1, 0.0)'', 30)]"
  by (simp add: dump_def example_env_def)

lemma example_run:
  "tune_decoder_params example_env example_args example_world
   = (Inr [(''beam_size'', PyTuple (2, 1, 0)), (''ensemble'', PyFloat 10)],
      example_world\<lparr>random_state := \<lparr>draws = (\<lambda>_. 0), pos = 6\<rparr>, built := [PyInt 1],
        evaluated := [(0, (2, 1, 0), Inr 10), (0, (1, 1, 0), Inr 30), (0, (1, 1, 0), Inr 30)],
        scores_json := Some [(''(2, 1, 0.0)'', 10), (''(1, 1, 0.0)'', 30)]\<rparr>)"
  by (simp add: tune_decoder_params_def example_pre example_trial_lists example_grouped try_body_def
      example_eval_groups example_best result_dict_def example_dump del: eval_groups.simps)

lemma failing_eval_groups:
  "eval_groups failing_env example_args [(1, [(2, 0), (1, 0), (1, 0)])] []
      (example_world\<lparr>random_state := \<lparr>draws = (\<lambda>_. 0), pos = 6\<rparr>\<rparr>)
   = (Some (External ''decode''), [((2, 1, 0), 10)],
      example_world\<lparr>random_state := \<lparr>draws = (\<lambda>_. 0), pos = 6\<rparr>, built := [PyInt 1],
        evaluated := [(0, (2, 1, 0), Inr 10), (0, (1, 1, 0), Inl (External ''decode''))]\<rparr>)"
  by (simp add: failing_env_def example_env_def example_args_def example_world_def decode_eval_file_def Let_def)

lemma failing_dump: "dump failing_env [((2, 1, 0), 10)] = [(''(2, 1, 0.0)'', 10)]"
  by (simp add: dump_def example_env_def failing_env_def)

lemma failing_run:
  "tune_decoder_params failing_env example_args example_world
   = (Inl (External ''decode''),
      example_world\<lparr>random_state := \<lparr>draws = (\<lambda>_. 0), pos = 6\<rparr>, built := [PyInt 1],
        evaluated := [(0, (2, 1, 0), Inr 10), (0, (1, 1, 0), Inl (External ''decode''))],
        scores_json := Some [(''(2, 1, 0.0)'', 10)]\<rparr>)"
  by (simp add: tune_decoder_params_def example_pre example_trial_lists example_grouped try_body_def
      failing_eval_groups failing_dump del: eval_groups.simps)

subsection \<open>The world after a tuning call\<close>

lemma try_body_world:
  assumes "try_body env a groups mem w = (res, mem', w')"
  shows "\<exists>calls bl. w' = w\<lparr>built := built w @ map PyInt bl, evaluated := evaluated w @ calls\<rparr>
           \<and> mem' = record_all mem (completed calls)"
proof -
  obtain r m1 w1 where e: "eval_groups env a groups mem w = (r, m1, w1)" by (metis prod_cases3)
  have "mem' = m1 \<and> w' = w1"
    using assms e by (auto simp: try_body_def split: option.splits sum.splits)
  then show ?thesis using eval_groups_log[OF e] by blast
qed

lemma tune_world:
  assumes "strategy a = ''random''" "tune_src a \<in> paths w" "tune_ref a \<in> paths w"
    and "load_memory env (scores_json w) = Inr mem0"
    and "trial_lists a mem0 (random_state w) = (Inr ts, g)"
    and "tune_decoder_params env a w = (res, w')"
  shows "\<exists>calls bl. w' = w\<lparr>random_state := g, built := built w @ map PyInt bl,
                              evaluated := evaluated w @ calls,
                              scores_json := Some (dump env (record_all mem0 (completed calls)))\<rparr>"
proof -
  obtain bs es ls where ts: "ts = (bs, es, ls)" by (cases ts)
  let ?w1 = "w\<lparr>random_state := g\<rparr>"
  obtain r m1 w1 where t: "try_body env a (grouped_ens (zip bs (zip es ls))) mem0 ?w1 = (r, m1, w1)"
    by (metis prod_cases3)
  from try_body_world[OF t] obtain calls bl where
    W: "w1 = ?w1\<lparr>built := built ?w1 @ map PyInt bl, evaluated := evaluated ?w1 @ calls\<rparr>"
       "m1 = record_all mem0 (completed calls)" by blast
  have "w' = w1\<lparr>scores_json := Some (dump env m1)\<rparr>"
    using assms ts t by (simp add: tune_decoder_params_def)
  with W show ?thesis by (intro exI[of _ calls] exI[of _ bl]) simp
qed

lemma tune_artifacts: "artifacts (snd (tune_decoder_params env a w)) = artifacts w"
proof (cases "strategy a = ''random'' \<and> tune_src a \<in> paths w \<and> tune_ref a \<in> paths w")
  case False
  then show ?thesis by (auto simp: tune_decoder_params_def)
next
  case pre: True
  show ?thesis
  proof (cases "load_memory env (scores_json w)")
    case (Inl e)
    then show ?thesis using pre by (simp add: tune_decoder_params_def)
  next
    case (Inr mem0)
    obtain r g where tl: "trial_lists a mem0 (random_state w) = (r, g)" by (cases "trial_lists a mem0 (random_state w)")
    show ?thesis
    proof (cases r)
      case (Inl e)
      then show ?thesis using pre Inr tl by (simp add: tune_decoder_params_def)
    next
      case ok: (Inr ts)
      obtain res w' where t: "tune_decoder_params env a w = (res, w')" by (cases "tune_decoder_params env a w")
      from tune_world[OF _ _ _ Inr tl[unfolded ok] t] pre obtain calls bl where
        "w' = w\<lparr>random_state := g, built := built w @ map PyInt bl,
                              evaluated := evaluated w @ calls,
                              scores_json := Some (dump env (record_all mem0 (completed calls)))\<rparr>"
        by blast
      then show ?thesis using t by simp
    qed
  qed
qed

lemma tune_stage_artifacts: "artifacts (snd (tune_stage env args w)) = artifacts w"
  by (simp add: tune_stage_def tune_artifacts split: option.splits)

subsection \<open>A call that finds a scores file\<close>

lemma resumed_pre:
  "strategy example_args = ''random''" "strategy resumed_args = ''random''"
  "tune_src example_args \<in> paths resumed_world" "tune_ref example_args \<in> paths resumed_world"
  "tune_src resumed_args \<in> paths resumed_world" "tune_ref resumed_args \<in> paths resumed_world"
  by (simp_all add: example_args_def resumed_args_def resumed_world_def example_world_def)

lemma tune_raises_on_scores_file:
  assumes "strategy a = ''random''" "tune_src a \<in> paths w" "tune_ref a \<in> paths w"
    and "scores_json w = Some data"
  shows "tune_decoder_params env a w = (Inl AttributeError, w)"
  using assms by (simp add: tune_decoder_params_def load_memory_present)

lemma resumed_world_file: "scores_json resumed_world = Some [(''(2, 1, 0.0)'', 10)]"
  by (simp add: resumed_world_def)

section \<open>The claims about tuning and testing\<close>

text \<open>
  Claim C1 asks that the returned trial be the one with the largest score.  In the
  example call the trials \<open>(2, 1, 0.0)\<close> and \<open>(1, 1, 0.0)\<close> are evaluated with the scores
  10 and 30; the call returns the dictionary that maps \<open>beam_size\<close> to the key
  \<open>(2, 1, 0.0)\<close>, the largest key, and \<open>ensemble\<close> to its score 10, although the memory
  written to the scores file holds 30 for \<open>(1, 1, 0.0)\<close>.  The code sorts by the key
  (\<open>best_params_largest_key\<close>) and zips three names with a pair.
\<close>

theorem tune_returns_largest_key_not_best_score:
  "fst (tune_decoder_params example_env example_args example_world)
     = Inr [(''beam_size'', PyTuple (2, 1, 0)), (''ensemble'', PyFloat 10)]
   \<and> completed (evaluated (snd (tune_decoder_params example_env example_args example_world)))
     = [((2, 1, 0), 10), ((1, 1, 0), 30), ((1, 1, 0), 30)]
   \<and> scores_json (snd (tune_decoder_params example_env example_args example_world))
     = Some [(''(2, 1, 0.0)'', 10), (''(1, 1, 0.0)'', 30)]"
  by (simp add: example_run)

text \<open>
  Claim C2 asks that a persisted scores file load back to the memory that was written.
  Loading any existing scores file raises AttributeError (\<open>data.item()\<close>), in
  particular the file written from any memory; a tuning call that finds a scores file
  ends with an exception and leaves the file as it is; the example call, run a second
  time on the world the first run left, raises AttributeError.
\<close>

theorem load_memory_raises_on_existing_file:
  "load_memory env (Some (dump env mem)) = Inl AttributeError
   \<and> (\<exists>e. tune_decoder_params env a (w\<lparr>scores_json := Some (dump env mem)\<rparr>)
            = (Inl e, w\<lparr>scores_json := Some (dump env mem)\<rparr>))
   \<and> tune_decoder_params example_env example_args
        (snd (tune_decoder_params example_env example_args example_world))
      = (Inl AttributeError, snd (tune_decoder_params example_env example_args example_world))"
proof -
  have "tune_decoder_params example_env example_args
        (snd (tune_decoder_params example_env example_args example_world))
      = (Inl AttributeError, snd (tune_decoder_params example_env example_args example_world))"
    by (simp add: example_run) (simp add: tune_decoder_params_def example_args_def example_world_def load_memory_present)
  then show ?thesis
    using load_memory_present tune_with_scores_file by blast
qed

text \<open>
  Claim C3 asks that a failing test case get an error file and the following case be
  processed.  On the two-case suite \<open>run_tests\<close> raises AttributeError at line 184
  (\<open>self.suggested_batch_size\<close>) before the loop over the cases; for every
  configuration it ends with an exception and writes no per-case file.  (Were the loop
  reached, every case would get an error file holding TypeError, since the call does not
  pass \<open>lowercase\<close>: \<open>test_cases_all_errors\<close>.)
\<close>

theorem run_tests_raises_before_cases:
  "run_tests env example_tester last_step w = (Inl AttributeError, w)
   \<and> (\<exists>e. fst (run_tests env args last_step w) = Inl e)
   \<and> artifacts (snd (run_tests env args last_step w)) = artifacts w"
proof (intro conjI)
  show "run_tests env example_tester last_step w = (Inl AttributeError, w)"
    by (simp add: run_tests_def example_tester_def tune_stage_def getattr_suggested)
next
  obtain r w1 where t: "tune_stage env args w = (r, w1)" by (cases "tune_stage env args w")
  have a: "artifacts w1 = artifacts w" using tune_stage_artifacts[of env args w] t by simp
  show "\<exists>e. fst (run_tests env args last_step w) = Inl e"
    using t by (cases r) (auto simp: run_tests_def getattr_suggested Let_def)
  show "artifacts (snd (run_tests env args last_step w)) = artifacts w"
    using t a by (cases r) (auto simp: run_tests_def getattr_suggested Let_def)
qed

text \<open>
  Claim C6 asks that the memory be written on every exit, so that a retried run can
  resume from the completed trials.  In the first run below the evaluation of the
  second trial raises; the exception leaves the function and the scores file holds the
  trial completed before it.  The retried run, with a scorer that works, finds that
  file and raises AttributeError while loading it (\<open>data.item()\<close>, the defect of
  claim C2): it evaluates nothing and leaves the world as it found it.
\<close>

theorem retried_run_cannot_resume:
  "fst (tune_decoder_params failing_env example_args example_world) = Inl (External ''decode'')
   \<and> scores_json (snd (tune_decoder_params failing_env example_args example_world))
       = Some [(''(2, 1, 0.0)'', 10)]
   \<and> tune_decoder_params example_env example_args
         (snd (tune_decoder_params failing_env example_args example_world))
       = (Inl AttributeError, snd (tune_decoder_params failing_env example_args example_world))"
proof -
  let ?w = "snd (tune_decoder_params failing_env example_args example_world)"
  have f: "scores_json ?w = Some [(''(2, 1, 0.0)'', 10)]" by (simp add: failing_run)
  have p: "tune_src example_args \<in> paths ?w" "tune_ref example_args \<in> paths ?w"
    by (simp_all add: failing_run) (simp_all add: example_args_def example_world_def)
  have "tune_decoder_params example_env example_args ?w = (Inl AttributeError, ?w)"
    by (rule tune_raises_on_scores_file[OF example_pre(1) p f])
  moreover have "fst (tune_decoder_params failing_env example_args example_world)
                  = Inl (External ''decode'')"
    by (simp add: failing_run)
  ultimately show ?thesis using f by simp
qed

text \<open>
  Claim C7 asks that a run which starts from a memory of \<open>K\<close> entries, with
  \<open>N > K\<close> trials asked for, sample exactly \<open>N - K\<close> new configurations.  With a
  scores file of one entry and two trials asked for, the call raises AttributeError
  while loading the file (the defect of claim C2), before lines 109 to 121: the
  generator is not advanced, no configuration is sampled and none is evaluated.
\<close>

theorem resumed_run_samples_nothing:
  "scores_json resumed_world = Some [(''(2, 1, 0.0)'', 10)]
   \<and> trials example_args = 2
   \<and> tune_decoder_params example_env example_args resumed_world = (Inl AttributeError, resumed_world)
   \<and> pos (random_state (snd (tune_decoder_params example_env example_args resumed_world))) = 0
   \<and> evaluated (snd (tune_decoder_params example_env example_args resumed_world)) = []"
proof -
  have t: "tune_decoder_params example_env example_args resumed_world
             = (Inl AttributeError, resumed_world)"
    by (rule tune_raises_on_scores_file[OF resumed_pre(1) resumed_pre(3) resumed_pre(4)
          resumed_world_file])
  show ?thesis
    by (simp add: t resumed_world_file) (simp add: resumed_world_def example_world_def example_args_def)
qed

text \<open>
  Claim C8.  The loops call \<open>Decoder.new\<close> once for each ensemble size they reach,
  never twice for one size; every evaluation uses the decoder built in this search for
  its trial's ensemble size, so two trials with the same ensemble size share one
  decoder.  When the search runs to its end the number of decoders built is the number
  of distinct ensemble sizes among the trials, and the evaluated trials are exactly the
  planned trials.
\<close>

theorem one_decoder_per_ensemble_size:
  assumes "eval_groups env a (grouped_ens ts) mem w = (res, mem', w')"
  shows "\<exists>sizes calls. built w' = built w @ map PyInt sizes \<and> evaluated w' = evaluated w @ calls
     \<and> distinct sizes
     \<and> set sizes \<subseteq> (\<lambda>k. fst (snd k)) ` set ts
     \<and> (\<forall>x \<in> set calls. length (built w) \<le> fst x \<and> fst x < length (built w')
            \<and> built w' ! fst x = PyInt (fst (snd (fst (snd x)))))
     \<and> (\<forall>x \<in> set calls. \<forall>y \<in> set calls.
            fst (snd (fst (snd x))) = fst (snd (fst (snd y))) \<longrightarrow> fst x = fst y)
     \<and> (res = None \<longrightarrow> length sizes = card ((\<lambda>k. fst (snd k)) ` set ts)
                         \<and> mset (map (\<lambda>x. fst (snd x)) calls) = mset ts)"
proof -
  from eval_groups_log[OF assms] obtain calls bl where
    W: "w' = w\<lparr>built := built w @ map PyInt bl, evaluated := evaluated w @ calls\<rparr>"
    and P: "bl = take (length bl) (map fst (grouped_ens ts))"
    and I: "\<forall>x \<in> set calls. \<exists>j < length bl. fst x = length (built w) + j \<and> fst (snd (fst (snd x))) = bl ! j"
    and C: "res = None \<longrightarrow> bl = map fst (grouped_ens ts)
              \<and> map (\<lambda>x. fst (snd x)) calls = flat (grouped_ens ts)"
    by blast
  have d: "distinct bl"
    using P grouped_ens_props(1)[of ts] by (metis distinct_take)
  have c1: "built w' = built w @ map PyInt bl" "evaluated w' = evaluated w @ calls"
    using W by simp_all
  have "set bl \<subseteq> set (map fst (grouped_ens ts))"
    using P by (metis set_take_subset)
  then have sub: "set bl \<subseteq> (\<lambda>k. fst (snd k)) ` set ts"
    using grouped_ens_props(2)[of ts] by simp
  have c2: "\<forall>x \<in> set calls. length (built w) \<le> fst x \<and> fst x < length (built w')
            \<and> built w' ! fst x = PyInt (fst (snd (fst (snd x))))"
  proof
    fix x assume "x \<in> set calls"
    then obtain j where j: "j < length bl" "fst x = length (built w) + j" "fst (snd (fst (snd x))) = bl ! j"
      using I by blast
    then show "length (built w) \<le> fst x \<and> fst x < length (built w')
            \<and> built w' ! fst x = PyInt (fst (snd (fst (snd x))))"
      using c1(1) by (simp add: nth_append)
  qed
  have c3: "\<forall>x \<in> set calls. \<forall>y \<in> set calls.
            fst (snd (fst (snd x))) = fst (snd (fst (snd y))) \<longrightarrow> fst x = fst y"
  proof (intro ballI impI)
    fix x y assume "x \<in> set calls" "y \<in> set calls"
      and e: "fst (snd (fst (snd x))) = fst (snd (fst (snd y)))"
    then obtain j j' where
      "j < length bl" "fst x = length (built w) + j" "fst (snd (fst (snd x))) = bl ! j"
      "j' < length bl" "fst y = length (built w) + j'" "fst (snd (fst (snd y))) = bl ! j'"
      using I by blast
    with e d show "fst x = fst y" by (simp add: nth_eq_iff_index_eq)
  qed
  have c4: "res = None \<longrightarrow> length bl = card ((\<lambda>k. fst (snd k)) ` set ts)
                         \<and> mset (map (\<lambda>x. fst (snd x)) calls) = mset ts"
  proof
    assume "res = None"
    with C have b: "bl = map fst (grouped_ens ts)"
      and f: "map (\<lambda>x. fst (snd x)) calls = flat (grouped_ens ts)" by simp_all
    have "length bl = card (set bl)" using d by (simp add: distinct_card)
    also have "set bl = (\<lambda>k. fst (snd k)) ` set ts"
      using b grouped_ens_props(2)[of ts] by simp
    finally have "length bl = card ((\<lambda>k. fst (snd k)) ` set ts)" .
    moreover have "mset (map (\<lambda>x. fst (snd x)) calls) = mset ts"
      using f grouped_ens_props(3)[of ts] by simp
    ultimately show "length bl = card ((\<lambda>k. fst (snd k)) ` set ts)
                         \<and> mset (map (\<lambda>x. fst (snd x)) calls) = mset ts" by simp
  qed
  show ?thesis
    by (intro exI[of _ bl] exI[of _ calls] conjI c1 d sub c2 c3 c4)
qed

theorem one_decoder_per_ensemble_size_witness:
  "eval_groups example_env example_args (grouped_ens [(2, 1, 0), (1, 1, 0), (1, 1, 0)]) []
      (example_world\<lparr>random_state := \<lparr>draws = (\<lambda>_. 0), pos = 6\<rparr>\<rparr>)
   = (None, [((2, 1, 0), 10), ((1, 1, 0), 30)],
      example_world\<lparr>random_state := \<lparr>draws = (\<lambda>_. 0), pos = 6\<rparr>, built := [PyInt 1],
        evaluated := [(0, (2, 1, 0), Inr 10), (0, (1, 1, 0), Inr 30), (0, (1, 1, 0), Inr 30)]\<rparr>)
   \<and> (\<exists>sizes calls.
        built (example_world\<lparr>random_state := \<lparr>draws = (\<lambda>_. 0), pos = 6\<rparr>, built := [PyInt 1],
                 evaluated := [(0, (2, 1, 0), Inr 10), (0, (1, 1, 0), Inr 30), (0, (1, 1, 0), Inr 30)]\<rparr>)
          = built (example_world\<lparr>random_state := \<lparr>draws = (\<lambda>_. 0), pos = 6\<rparr>\<rparr>) @ map PyInt sizes
      \<and> evaluated (example_world\<lparr>random_state := \<lparr>draws = (\<lambda>_. 0), pos = 6\<rparr>, built := [PyInt 1],
                 evaluated := [(0, (2, 1, 0), Inr 10), (0, (1, 1, 0), Inr 30), (0, (1, 1, 0), Inr 30)]\<rparr>)
          = evaluated (example_world\<lparr>random_state := \<lparr>draws = (\<lambda>_. 0), pos = 6\<rparr>\<rparr>) @ calls
      \<and> length sizes = card ((\<lambda>k. fst (snd k)) ` set [(2, 1, 0), (1, 1, 0), (1::int, 1::int, 0::real)])
      \<and> mset (map (\<lambda>x. fst (snd x)) calls) = mset [(2, 1, 0), (1, 1, 0), (1, 1, 0)])"
proof -
  have e: "eval_groups example_env example_args (grouped_ens [(2, 1, 0), (1, 1, 0), (1, 1, 0)]) []
      (example_world\<lparr>random_state := \<lparr>draws = (\<lambda>_. 0), pos = 6\<rparr>\<rparr>)
   = (None, [((2, 1, 0), 10), ((1, 1, 0), 30)],
      example_world\<lparr>random_state := \<lparr>draws = (\<lambda>_. 0), pos = 6\<rparr>, built := [PyInt 1],
        evaluated := [(0, (2, 1, 0), Inr 10), (0, (1, 1, 0), Inr 30), (0, (1, 1, 0), Inr 30)]\<rparr>)"
    by (simp only: example_grouped example_eval_groups)
  from one_decoder_per_ensemble_size [OF e] obtain sizes calls where
    s: "built (example_world\<lparr>random_state := \<lparr>draws = (\<lambda>_. 0), pos = 6\<rparr>, built := [PyInt 1],
                 evaluated := [(0, (2, 1, 0), Inr 10), (0, (1, 1, 0), Inr 30), (0, (1, 1, 0), Inr 30)]\<rparr>)
          = built (example_world\<lparr>random_state := \<lparr>draws = (\<lambda>_. 0), pos = 6\<rparr>\<rparr>) @ map PyInt sizes"
       "evaluated (example_world\<lparr>random_state := \<lparr>draws = (\<lambda>_. 0), pos = 6\<rparr>, built := [PyInt 1],
                 evaluated := [(0, (2, 1, 0), Inr 10), (0, (1, 1, 0), Inr 30), (0, (1, 1, 0), Inr 30)]\<rparr>)
          = evaluated (example_world\<lparr>random_state := \<lparr>draws = (\<lambda>_. 0), pos = 6\<rparr>\<rparr>) @ calls"
       "None = (None :: error option) \<longrightarrow>
          length sizes = card ((\<lambda>k. fst (snd k)) ` set [(2, 1, 0), (1, 1, 0), (1::int, 1::int, 0::real)])
          \<and> mset (map (\<lambda>x. fst (snd x)) calls) = mset [(2, 1, 0), (1, 1, 0), (1, 1, 0)]"
    by blast
  from s(3) have t:
    "length sizes = card ((\<lambda>k. fst (snd k)) ` set [(2, 1, 0), (1, 1, 0), (1::int, 1::int, 0::real)])"
    "mset (map (\<lambda>x. fst (snd x)) calls) = mset [(2, 1, 0), (1, 1, 0), (1, 1, 0)]"
    by blast+
  show ?thesis
    by (intro conjI exI[of _ sizes] exI[of _ calls] e s(1) s(2) t)
qed

text \<open>
  Claim C10 asks that a call with \<open>S\<close> new suggestions and a loaded memory of
  \<open>K < trials\<close> entries evaluate \<open>S + (trials - K)\<close> trials.  With a scores file of
  one entry, two trials asked for and two suggestions that the file does not hold, that
  would be three evaluations; the call raises AttributeError while loading the file
  (the defect of claim C2) and evaluates nothing.  Without a scores file the count is
  as claimed: the example call, with one suggestion and two trials asked for, makes
  three evaluations.
\<close>

theorem call_with_scores_file_evaluates_nothing:
  "scores_json resumed_world = Some [(''(2, 1, 0.0)'', 10)]
   \<and> trials resumed_args = 2
   \<and> suggested resumed_args = Some [(3, 2, 0), (4, 2, 0)]
   \<and> tune_decoder_params example_env resumed_args resumed_world = (Inl AttributeError, resumed_world)
   \<and> evaluated (snd (tune_decoder_params example_env resumed_args resumed_world)) = []
   \<and> length (evaluated (snd (tune_decoder_params example_env example_args example_world))) = 3"
proof -
  have t: "tune_decoder_params example_env resumed_args resumed_world
             = (Inl AttributeError, resumed_world)"
    by (rule tune_raises_on_scores_file[OF resumed_pre(2) resumed_pre(5) resumed_pre(6)
          resumed_world_file])
  show ?thesis
    by (simp add: t resumed_world_file example_run)
       (simp add: resumed_world_def example_world_def resumed_args_def example_args_def)
qed

end
